theory Spec2Isabelle
  imports Main "HOL-Library.Word"
begin

section \<open>Values of the host language\<close>

text \<open>
  The client is TypeScript running on Node. A body reaches \<open>request\<close> as an arbitrary
  run-time value: the annotation \<open>data?: Consumable\<close> is erased at run time and the
  code itself inspects the value (\<open>data && !isConsumable(data)\<close>). The values that
  the checks of the source can tell apart are listed here. A string is a sequence of
  UTF-16 code units (what \<open>.length\<close> counts), a Buffer a sequence of octets, a
  Readable is named by an identifier; \<open>JObject\<close> stands for every other object.
\<close>

type_synonym byte = "8 word"
type_synonym code_unit = "16 word"

datatype JsValue =
    JUndefined
  | JNull
  | JBoolean bool
  | JNumber int
  | JNaN
  | JString "code_unit list"
  | JBuffer "byte list"
  | JReadable nat
  | JObject

text \<open>ToBoolean, as the operator \<open>&&\<close> applies it to its left operand.\<close>

fun truthy :: "JsValue \<Rightarrow> bool" where
  "truthy JUndefined = False"
| "truthy JNull = False"
| "truthy (JBoolean b) = b"
| "truthy (JNumber n) = (n \<noteq> 0)"
| "truthy JNaN = False"
| "truthy (JString s) = (s \<noteq> [])"
| "truthy (JBuffer b) = True"
| "truthy (JReadable r) = True"
| "truthy JObject = True"

fun isBuffer :: "JsValue \<Rightarrow> bool" where
  "isBuffer (JBuffer b) = True"
| "isBuffer v = False"

fun isReadable :: "JsValue \<Rightarrow> bool" where
  "isReadable (JReadable r) = True"
| "isReadable v = False"

fun isString :: "JsValue \<Rightarrow> bool" where
  "isString (JString s) = True"
| "isString v = False"

text \<open>Errors are values. \<open>SystemError\<close> carries the \<open>code\<close> of a Node system error.\<close>

datatype JsError =
    Error string
  | TypeError string
  | SystemError string

subsection \<open>UTF-8 length of a string\<close>

text \<open>
  The number of octets Node writes for a string chunk under its default encoding
  (\<open>Buffer.byteLength(s, 'utf8')\<close>): one, two or three octets per code unit, four
  for a surrogate pair, three (U+FFFD) for an unpaired surrogate.
\<close>

fun utf8ByteLength :: "code_unit list \<Rightarrow> nat" where
  "utf8ByteLength [] = 0"
| "utf8ByteLength (c # cs) =
     (if c < 0x80 then 1 + utf8ByteLength cs
      else if c < 0x800 then 2 + utf8ByteLength cs
      else if 0xD800 \<le> c \<and> c < 0xDC00 then
        (case cs of
           [] \<Rightarrow> 3
         | d # ds \<Rightarrow>
             if 0xDC00 \<le> d \<and> d < 0xE000 then 4 + utf8ByteLength ds
             else 3 + utf8ByteLength cs)
      else 3 + utf8ByteLength cs)"

section \<open>Request options, URLs and the client\<close>

text \<open>
  Modelled from the spec: the enum \<open>Method\<close> of \<open>./types\<close> is not among the
  sources; these are the members the wrappers and the tests name.
\<close>

datatype Method = Get | Post | Delete

text \<open>
  A property of an object is absent, or an own key that holds \<open>undefined\<close>, or an
  own key that holds a value. The two first read alike (\<open>o.k\<close> is \<open>undefined\<close>);
  a spread tells them apart, since it copies every own key.
\<close>

datatype 'a Property = Absent | Undefined | Defined 'a

datatype HeaderValue = HUndefined | HNumber int | HString string

type_synonym Headers = "string \<rightharpoonup> HeaderValue"

text \<open>
  Node's \<open>RequestOptions\<close>: every field is optional. \<open>httpMethod\<close> (the key
  \<open>method\<close> of the source) and \<open>headers\<close> are the fields the client touches;
  \<open>others\<close> holds the remaining own keys with their values, \<open>JUndefined\<close> for
  an own key that holds \<open>undefined\<close>.
\<close>

record RequestOptions =
  httpMethod :: "Method Property"
  headers :: "Headers Property"
  others :: "string \<rightharpoonup> JsValue"

definition noOpts :: RequestOptions where
  "noOpts = \<lparr>httpMethod = Absent, headers = Absent, others = Map.empty\<rparr>"

text \<open>
  Object spread \<open>{...a, ...b}\<close>: a shallow copy in which every own key of \<open>b\<close>
  wins, also one that holds \<open>undefined\<close>; spreading \<open>undefined\<close> contributes no
  key.
\<close>

definition own :: "'a Property \<Rightarrow> 'a Property \<Rightarrow> 'a Property" where
  "own a b = (case b of Absent \<Rightarrow> a | Undefined \<Rightarrow> Undefined | Defined v \<Rightarrow> Defined v)"

definition spread :: "RequestOptions \<Rightarrow> RequestOptions option \<Rightarrow> RequestOptions" where
  "spread a b =
     (case b of
        None \<Rightarrow> a
      | Some o2 \<Rightarrow>
          \<lparr>httpMethod = own (httpMethod a) (httpMethod o2),
           headers = own (headers a) (headers o2),
           others = others a ++ others o2\<rparr>)"

record URL =
  protocol :: string
  href :: string

text \<open>
  The platform's \<open>new URL(input, base)\<close> is a parameter of the model: \<open>None\<close> is the
  TypeError it throws on an input it cannot parse.
\<close>

type_synonym UrlParser = "string \<Rightarrow> string option \<Rightarrow> URL option"

datatype PathOrUrl = Path string | Url URL

record HttpClient =
  baseUrl :: string
  baseReqOpts :: "RequestOptions option"

text \<open>The constructor (lines 13-25).\<close>

definition newHttpClient ::
  "UrlParser \<Rightarrow> string \<Rightarrow> RequestOptions option \<Rightarrow> JsError + HttpClient" where
  "newHttpClient parse url opts =
     (case parse url None of
        None \<Rightarrow> Inl (TypeError ''Invalid URL'')
      | Some u \<Rightarrow>
          if protocol u \<noteq> ''http:''
          then Inl (Error (''only http protocol is supported, got '' @ protocol u))
          else Inr \<lparr>baseUrl = url, baseReqOpts = opts\<rparr>)"

text \<open>\<open>buildUrl\<close> (lines 165-166).\<close>

definition buildUrl :: "UrlParser \<Rightarrow> HttpClient \<Rightarrow> PathOrUrl \<Rightarrow> URL option" where
  "buildUrl parse this pathOrUrl =
     (case pathOrUrl of
        Url u \<Rightarrow> Some u
      | Path p \<Rightarrow> parse p (Some (baseUrl this)))"

text \<open>\<open>combineOpts\<close> (lines 168-175): \<open>{...this.baseReqOpts, ...reqOpts, method}\<close>.\<close>

definition combineOpts :: "HttpClient \<Rightarrow> Method \<Rightarrow> RequestOptions option \<Rightarrow> RequestOptions" where
  "combineOpts this m reqOpts =
     (spread (spread noOpts (baseReqOpts this)) reqOpts)\<lparr>httpMethod := Defined m\<rparr>"

section \<open>Body capability check and content length\<close>

text \<open>\<open>isConsumable\<close> (lines 178-186).\<close>

definition isConsumable :: "JsValue \<Rightarrow> bool" where
  "isConsumable maybeConsumable =
     (isBuffer maybeConsumable \<or> isReadable maybeConsumable \<or> isString maybeConsumable)"

text \<open>
  \<open>getContentLength\<close> (lines 188-198): \<open>Buffer.byteLength\<close> of a Buffer is its number
  of octets; for a string the source returns \<open>data.length\<close>, the number of UTF-16 code
  units; \<open>None\<close> is \<open>undefined\<close>.
\<close>

fun getContentLength :: "JsValue \<Rightarrow> nat option" where
  "getContentLength (JBuffer b) = Some (length b)"
| "getContentLength (JString s) = Some (length s)"
| "getContentLength v = None"

text \<open>
  Lines 73-82. \<open>typeof contentLength === "number" && contentLength !== NaN\<close> holds
  exactly when a length was derived (\<open>x !== NaN\<close> is true of every value); then
  \<open>Object.assign\<close> replaces \<open>headers\<close> by a copy with the key \<open>content-length\<close> set.
  \<open>reqOpts.headers\<close> reads \<open>undefined\<close> from an absent key and from a key that holds
  \<open>undefined\<close>, and spreading \<open>undefined\<close> copies nothing.
\<close>

definition assignContentLength :: "RequestOptions \<Rightarrow> JsValue \<Rightarrow> RequestOptions" where
  "assignContentLength reqOpts data =
     (case getContentLength data of
        None \<Rightarrow> reqOpts
      | Some contentLength \<Rightarrow>
          reqOpts\<lparr>headers :=
            Defined ((case headers reqOpts of
                        Absent \<Rightarrow> Map.empty
                      | Undefined \<Rightarrow> Map.empty
                      | Defined h \<Rightarrow> h)
                       (''content-length'' \<mapsto> HNumber (int contentLength)))\<rparr>)"

section \<open>Telemetry\<close>

text \<open>
  Modelled from the spec: the enum \<open>EventType\<close> and the class \<open>TelemetryEvent\<close> of
  \<open>./telemetry\<close> are not among the sources; the members are the six the client
  publishes, the fields the three constructor arguments (type, data, error).
\<close>

datatype EventType =
    RequestStreamInitialised
  | SocketObtained
  | ConnectionEstablished
  | RequestStreamEnded
  | ResponseStreamReceived
  | RequestError

record TelemetryEvent =
  evType :: EventType
  evData :: "(URL \<times> RequestOptions) option"
  evError :: "JsError option"

definition event :: "EventType \<Rightarrow> TelemetryEvent" where
  "event t = \<lparr>evType = t, evData = None, evError = None\<rparr>"

text \<open>
  The sink is the caller's EventEmitter. \<open>emit\<close> runs the caller's listeners
  synchronously; the sink is modelled by what comes back to the caller of \<open>emit\<close>:
  \<open>None\<close> when the listeners return, \<open>Some e\<close> when one of them throws \<open>e\<close>.
\<close>

type_synonym Sink = "TelemetryEvent \<Rightarrow> JsError option"

section \<open>The state of one request\<close>

datatype IncomingMessage = IncomingMessage "byte list"

datatype Outcome = Pending | Fulfilled IncomingMessage | Rejected JsError

text \<open>The calls the client makes on the transport request and on the body stream.\<close>

datatype Op =
    HttpRequest URL RequestOptions
  | SetMaxListeners nat
  | DataOnceError
  | DataPipe
  | ReqEnd JsValue
  | ReqDestroy "JsError option"

text \<open>
  One flag per \<open>once\<close> listener: set while the listener is attached, cleared when the
  emitter removes it to run it. \<open>outcome\<close> is the state of the returned Promise,
  \<open>published\<close> the events handed to the sink, \<open>uncaught\<close> the exceptions that leave
  a listener (a throwing sink, an \<open>'error'\<close> event with no listener left).
\<close>

record RequestState =
  socketL :: bool
  connectL :: bool
  responseL :: bool
  errorL :: bool
  dataErrorL :: bool
  resolveL :: bool
  rejectL :: bool
  destroyed :: bool
  ops :: "Op list"
  published :: "TelemetryEvent list"
  outcome :: Outcome
  uncaught :: "JsError list"

definition idle :: RequestState where
  "idle = \<lparr>socketL = False, connectL = False, responseL = False, errorL = False,
           dataErrorL = False, resolveL = False, rejectL = False, destroyed = False,
           ops = [], published = [], outcome = Pending, uncaught = []\<rparr>"

text \<open>\<open>telemetry?.emit(type, ev)\<close>: nothing when the sink is absent.\<close>

definition publish ::
  "Sink option \<Rightarrow> TelemetryEvent \<Rightarrow> RequestState \<Rightarrow> RequestState \<times> JsError option" where
  "publish telemetry ev st =
     (case telemetry of
        None \<Rightarrow> (st, None)
      | Some sink \<Rightarrow> (st\<lparr>published := published st @ [ev]\<rparr>, sink ev))"

text \<open>A Promise settles once: \<open>resolve\<close> and \<open>reject\<close> do nothing to a settled one.\<close>

definition settle :: "Outcome \<Rightarrow> RequestState \<Rightarrow> RequestState" where
  "settle v st = (if outcome st = Pending then st\<lparr>outcome := v\<rparr> else st)"

text \<open>\<open>resolver.emit("resolve", res)\<close> and \<open>resolver.emit("reject", error)\<close>.\<close>

definition emitResolve :: "IncomingMessage \<Rightarrow> RequestState \<Rightarrow> RequestState" where
  "emitResolve res st =
     (if resolveL st then settle (Fulfilled res) (st\<lparr>resolveL := False\<rparr>) else st)"

definition emitReject :: "JsError \<Rightarrow> RequestState \<Rightarrow> RequestState" where
  "emitReject err st =
     (if rejectL st then settle (Rejected err) (st\<lparr>rejectL := False\<rparr>) else st)"

definition throwUncaught :: "JsError \<Rightarrow> RequestState \<Rightarrow> RequestState" where
  "throwUncaught e st = st\<lparr>uncaught := uncaught st @ [e]\<rparr>"

section \<open>The synchronous part of \<open>request\<close>\<close>

text \<open>
  Lines 61-163 up to the return. \<open>Inl (e, st)\<close>: the call throws \<open>e\<close> (the URL does
  not parse, or a listener of the sink throws during a synchronous \<open>emit\<close>) and leaves
  the request in the state \<open>st\<close>, with the listeners attached so far. \<open>Inr st\<close>: the
  call returns a Promise; for a rejected body that Promise is already rejected and
  nothing else has happened.
\<close>

definition request ::
  "UrlParser \<Rightarrow> HttpClient \<Rightarrow> PathOrUrl \<Rightarrow> RequestOptions \<Rightarrow> JsValue \<Rightarrow> Sink option
     \<Rightarrow> (JsError \<times> RequestState) + RequestState" where
  "request parse this pathOrUrl reqOpts data telemetry =
     (if truthy data \<and> \<not> isConsumable data then
        Inr (idle\<lparr>outcome := Rejected (TypeError ''body must be one of: Readable, Buffer, string'')\<rparr>)
      else
        (let reqOpts1 = assignContentLength reqOpts data in
         (case buildUrl parse this pathOrUrl of
            None \<Rightarrow> Inl (TypeError ''Invalid URL'', idle)
          | Some url \<Rightarrow>
              (let st0 = idle\<lparr>ops := [HttpRequest url reqOpts1, SetMaxListeners 5]\<rparr> in
               (case publish telemetry
                       \<lparr>evType = RequestStreamInitialised, evData = Some (url, reqOpts1),
                        evError = None\<rparr> st0 of
                  (st1, Some e) \<Rightarrow> Inl (e, st1)
                | (st1, None) \<Rightarrow>
                    (let st2 = st1\<lparr>socketL := True, responseL := True, errorL := True\<rparr>;
                         st3 = (if isReadable data
                                then st2\<lparr>dataErrorL := True,
                                         ops := ops st2 @ [DataOnceError, DataPipe]\<rparr>
                                else st2\<lparr>ops := ops st2 @ [ReqEnd data]\<rparr>)
                     in
                     (case publish telemetry (event RequestStreamEnded) st3 of
                        (st4, Some e) \<Rightarrow> Inl (e, st4)
                      | (st4, None) \<Rightarrow> Inr (st4\<lparr>resolveL := True, rejectL := True\<rparr>))))))))"

text \<open>
  The verb wrappers (lines 27-59). The final \<open>.then(toBufferResponse)\<close> is a function
  of \<open>./transform\<close>, which is not among the sources: the wrappers are modelled up to
  the Promise of \<open>request\<close>.
\<close>

definition get ::
  "UrlParser \<Rightarrow> HttpClient \<Rightarrow> PathOrUrl \<Rightarrow> RequestOptions option \<Rightarrow> Sink option
     \<Rightarrow> (JsError \<times> RequestState) + RequestState" where
  "get parse this pathOrUrl reqOpts telemetry =
     request parse this pathOrUrl (combineOpts this Get reqOpts) JUndefined telemetry"

definition post ::
  "UrlParser \<Rightarrow> HttpClient \<Rightarrow> PathOrUrl \<Rightarrow> RequestOptions option \<Rightarrow> JsValue \<Rightarrow> Sink option
     \<Rightarrow> (JsError \<times> RequestState) + RequestState" where
  "post parse this pathOrUrl reqOpts data telemetry =
     request parse this pathOrUrl (combineOpts this Post reqOpts) data telemetry"

definition delete ::
  "UrlParser \<Rightarrow> HttpClient \<Rightarrow> PathOrUrl \<Rightarrow> RequestOptions option \<Rightarrow> Sink option
     \<Rightarrow> (JsError \<times> RequestState) + RequestState" where
  "delete parse this pathOrUrl reqOpts telemetry =
     request parse this pathOrUrl (combineOpts this Delete reqOpts) JUndefined telemetry"

section \<open>The listeners\<close>

text \<open>
  What the environment can signal after \<open>request\<close> has returned: the request emits
  \<open>'socket'\<close>, \<open>'response'\<close> or \<open>'error'\<close>, the socket emits \<open>'connect'\<close>, the
  body stream emits \<open>'error'\<close>.
\<close>

datatype Signal =
    Socket
  | Connect
  | Response IncomingMessage
  | ReqError JsError
  | DataError JsError

text \<open>Lines 97-109: the \<open>'socket'\<close> listener, which attaches the \<open>'connect'\<close> listener.\<close>

definition onSocket :: "Sink option \<Rightarrow> RequestState \<Rightarrow> RequestState" where
  "onSocket telemetry st =
     (if socketL st then
        (case publish telemetry (event SocketObtained) (st\<lparr>socketL := False\<rparr>) of
           (st1, Some e) \<Rightarrow> throwUncaught e st1
         | (st1, None) \<Rightarrow> st1\<lparr>connectL := True\<rparr>)
      else st)"

definition onConnect :: "Sink option \<Rightarrow> RequestState \<Rightarrow> RequestState" where
  "onConnect telemetry st =
     (if connectL st then
        (case publish telemetry (event ConnectionEstablished) (st\<lparr>connectL := False\<rparr>) of
           (st1, Some e) \<Rightarrow> throwUncaught e st1
         | (st1, None) \<Rightarrow> st1)
      else st)"

text \<open>Lines 111-118: the \<open>'response'\<close> listener.\<close>

definition onResponse :: "Sink option \<Rightarrow> IncomingMessage \<Rightarrow> RequestState \<Rightarrow> RequestState" where
  "onResponse telemetry res st =
     (if responseL st then
        (case publish telemetry (event ResponseStreamReceived) (st\<lparr>responseL := False\<rparr>) of
           (st1, Some e) \<Rightarrow> throwUncaught e st1
         | (st1, None) \<Rightarrow> emitResolve res st1)
      else st)"

text \<open>
  Lines 120-134: the \<open>'error'\<close> listener of the request. An \<open>'error'\<close> event that
  finds no listener is thrown by the emitter.
\<close>

definition onError :: "Sink option \<Rightarrow> JsError \<Rightarrow> RequestState \<Rightarrow> RequestState" where
  "onError telemetry err st =
     (if errorL st then
        (let st1 = st\<lparr>errorL := False, destroyed := True, ops := ops st @ [ReqDestroy None]\<rparr> in
         case publish telemetry
                \<lparr>evType = RequestError, evData = None, evError = Some err\<rparr> st1 of
           (st2, Some e) \<Rightarrow> throwUncaught e st2
         | (st2, None) \<Rightarrow> emitReject err st2)
      else throwUncaught err st)"

text \<open>
  Lines 136-145: the \<open>'error'\<close> listener of a stream body calls \<open>req.destroy(error)\<close>.
  Destroying a request that is not yet destroyed makes it emit \<open>'error'\<close> with the
  cause; destroying a destroyed request does nothing more.
\<close>

definition onDataError :: "Sink option \<Rightarrow> JsError \<Rightarrow> RequestState \<Rightarrow> RequestState" where
  "onDataError telemetry err st =
     (if dataErrorL st then
        (let st1 = st\<lparr>dataErrorL := False, ops := ops st @ [ReqDestroy (Some err)]\<rparr> in
         if destroyed st1 then st1
         else onError telemetry err (st1\<lparr>destroyed := True\<rparr>))
      else st)"

fun deliver :: "Sink option \<Rightarrow> Signal \<Rightarrow> RequestState \<Rightarrow> RequestState" where
  "deliver telemetry Socket st = onSocket telemetry st"
| "deliver telemetry Connect st = onConnect telemetry st"
| "deliver telemetry (Response res) st = onResponse telemetry res st"
| "deliver telemetry (ReqError err) st = onError telemetry err st"
| "deliver telemetry (DataError err) st = onDataError telemetry err st"

text \<open>The listeners run one signal at a time, in the order of arrival.\<close>

fun run :: "Sink option \<Rightarrow> RequestState \<Rightarrow> Signal list \<Rightarrow> RequestState" where
  "run telemetry st [] = st"
| "run telemetry st (s # ss) = run telemetry (deliver telemetry s st) ss"

text \<open>
  The whole life of one request: the call, then the signals in their order. The
  listeners that a throwing call has attached run as well.
\<close>

definition lifecycle ::
  "UrlParser \<Rightarrow> HttpClient \<Rightarrow> PathOrUrl \<Rightarrow> RequestOptions \<Rightarrow> JsValue \<Rightarrow> Sink option
     \<Rightarrow> Signal list \<Rightarrow> (JsError \<times> RequestState) + RequestState" where
  "lifecycle parse this pathOrUrl reqOpts data telemetry sigs =
     (case request parse this pathOrUrl reqOpts data telemetry of
        Inl (e, st) \<Rightarrow> Inl (e, run telemetry st sigs)
      | Inr st \<Rightarrow> Inr (run telemetry st sigs))"

subsection \<open>The transport's discipline\<close>

text \<open>
  The comment at lines 121-125 quotes the documentation of \<open>request.destroy\<close>: no
  further events will be emitted. \<open>transportRun\<close> is \<open>run\<close> under that rule: a signal
  of the request or of its socket reaches a listener only while the request is not
  destroyed. The body stream is another emitter, so its \<open>'error'\<close> is always delivered.
\<close>

fun fromRequest :: "Signal \<Rightarrow> bool" where
  "fromRequest (DataError err) = False"
| "fromRequest s = True"

definition transportDeliver :: "Sink option \<Rightarrow> Signal \<Rightarrow> RequestState \<Rightarrow> RequestState" where
  "transportDeliver telemetry s st =
     (if destroyed st \<and> fromRequest s then st else deliver telemetry s st)"

fun transportRun :: "Sink option \<Rightarrow> RequestState \<Rightarrow> Signal list \<Rightarrow> RequestState" where
  "transportRun telemetry st [] = st"
| "transportRun telemetry st (s # ss) =
     transportRun telemetry (transportDeliver telemetry s st) ss"

section \<open>Vocabulary of the properties\<close>

text \<open>
  The spec names the event kinds RequestInitiated (\<open>RequestStreamInitialised\<close>),
  SocketObtained, ConnectionEstablished, BodyTransmissionCompleted
  (\<open>RequestStreamEnded\<close>), ResponseReceived (\<open>ResponseStreamReceived\<close>) and
  RequestFailed (\<open>RequestError\<close>).
\<close>

definition kinds :: "RequestState \<Rightarrow> EventType list" where
  "kinds st = map evType (published st)"

text \<open>The options handed to \<open>http.request\<close>.\<close>

fun sentOptions :: "Op list \<Rightarrow> RequestOptions list" where
  "sentOptions [] = []"
| "sentOptions (HttpRequest u opts # xs) = opts # sentOptions xs"
| "sentOptions (x # xs) = sentOptions xs"

text \<open>A body that passes the guard of lines 67-71.\<close>

definition accepted :: "JsValue \<Rightarrow> bool" where
  "accepted data = (isConsumable data \<or> \<not> truthy data)"

text \<open>A sink that is absent, or none of whose listeners ever throws.\<close>

definition neverThrows :: "Sink option \<Rightarrow> bool" where
  "neverThrows telemetry =
     (case telemetry of None \<Rightarrow> True | Some sink \<Rightarrow> \<forall>ev. sink ev = None)"

definition quietSink :: Sink where
  "quietSink ev = None"

text \<open>
  The Outcome that the first terminal signal of a sequence stands for: a response, an
  error of the request, or (for a stream body) an error of the body stream.
\<close>

fun firstTerminal :: "bool \<Rightarrow> Signal list \<Rightarrow> Outcome" where
  "firstTerminal streaming [] = Pending"
| "firstTerminal streaming (Socket # ss) = firstTerminal streaming ss"
| "firstTerminal streaming (Connect # ss) = firstTerminal streaming ss"
| "firstTerminal streaming (Response res # ss) = Fulfilled res"
| "firstTerminal streaming (ReqError err # ss) = Rejected err"
| "firstTerminal streaming (DataError err # ss) =
     (if streaming then Rejected err else firstTerminal streaming ss)"

text \<open>A request on which no terminal signal has been handled yet.\<close>

definition inFlight :: "bool \<Rightarrow> RequestState \<Rightarrow> bool" where
  "inFlight streaming st =
     (responseL st \<and> errorL st \<and> resolveL st \<and> rejectL st \<and> \<not> destroyed st \<and>
      dataErrorL st = streaming \<and> outcome st = Pending)"

text \<open>The event kind a signal is translated to.\<close>

fun kindOf :: "Signal \<Rightarrow> EventType" where
  "kindOf Socket = SocketObtained"
| "kindOf Connect = ConnectionEstablished"
| "kindOf (Response res) = ResponseStreamReceived"
| "kindOf (ReqError err) = RequestError"
| "kindOf (DataError err) = RequestError"

text \<open>\<open>precedes a b xs\<close>: reading \<open>xs\<close> from the left, no \<open>b\<close> comes before the first \<open>a\<close>.\<close>

fun precedes :: "'a \<Rightarrow> 'a \<Rightarrow> 'a list \<Rightarrow> bool" where
  "precedes a b [] = True"
| "precedes a b (x # xs) = (if x = a then True else if x = b then False else precedes a b xs)"

text \<open>
  The place of a kind in the order of publication: RequestInitiated,
  BodyTransmissionCompleted, SocketObtained, ConnectionEstablished, ResponseReceived,
  RequestFailed.
\<close>

fun rank :: "EventType \<Rightarrow> nat" where
  "rank RequestStreamInitialised = 0"
| "rank RequestStreamEnded = 1"
| "rank SocketObtained = 2"
| "rank ConnectionEstablished = 3"
| "rank ResponseStreamReceived = 4"
| "rank RequestError = 5"

text \<open>
  The stage signals of the transport, and a sequence of signals in which they come in
  the order of the stages: socket, then connect, then response.
\<close>

fun isStage :: "Signal \<Rightarrow> bool" where
  "isStage Socket = True"
| "isStage Connect = True"
| "isStage (Response res) = True"
| "isStage (ReqError err) = False"
| "isStage (DataError err) = False"

definition inStageOrder :: "Signal list \<Rightarrow> bool" where
  "inStageOrder sigs = sorted (map (\<lambda>s. rank (kindOf s)) (filter isStage sigs))"

text \<open>No published kind lies after the kind of a stage signal still to come.\<close>

definition belowRest :: "EventType list \<Rightarrow> Signal list \<Rightarrow> bool" where
  "belowRest ks sigs = (\<forall>k \<in> set ks. \<forall>s \<in> set sigs. isStage s \<longrightarrow> rank k \<le> rank (kindOf s))"

text \<open>
  A request that has been sent and has seen socket signals only: \<open>b\<close> tells whether
  a socket has been assigned.
\<close>

definition beforeConnect :: "bool \<Rightarrow> RequestState \<Rightarrow> bool" where
  "beforeConnect b st =
     (socketL st = (\<not> b) \<and> errorL st \<and> rejectL st \<and> \<not> destroyed st \<and>
      outcome st = Pending \<and>
      kinds st = [RequestStreamInitialised, RequestStreamEnded] @
                 (if b then [SocketObtained] else []))"

text \<open>RequestFailed, once published, is the last event.\<close>

definition failedLast :: "RequestState \<Rightarrow> bool" where
  "failedLast st = (RequestError \<in> set (kinds st) \<longrightarrow> last (kinds st) = RequestError)"

text \<open>The invariant that ties the listener flags to what has been published.\<close>

definition telemetryInv :: "RequestState \<Rightarrow> bool" where
  "telemetryInv st =
     (distinct (kinds st) \<and>
      (socketL st \<longrightarrow> SocketObtained \<notin> set (kinds st) \<and> \<not> connectL st \<and>
                      ConnectionEstablished \<notin> set (kinds st)) \<and>
      (connectL st \<longrightarrow> SocketObtained \<in> set (kinds st) \<and>
                       ConnectionEstablished \<notin> set (kinds st)) \<and>
      (responseL st \<longrightarrow> ResponseStreamReceived \<notin> set (kinds st)) \<and>
      (errorL st \<longrightarrow> RequestError \<notin> set (kinds st)) \<and>
      (RequestError \<in> set (kinds st) \<longrightarrow> destroyed st) \<and>
      precedes SocketObtained ConnectionEstablished (kinds st))"

text \<open>
  The error listener is attached while the request is not destroyed, and the reject
  listener of the resolver while the Outcome is pending.
\<close>

definition latchInv :: "RequestState \<Rightarrow> bool" where
  "latchInv st = ((errorL st \<or> destroyed st) \<and> (rejectL st \<or> outcome st \<noteq> Pending))"

subsection \<open>A concrete environment for instances\<close>

text \<open>
  A small stand-in for the platform's URL parser, used only to run the model on
  concrete inputs: an absolute http or https URL is taken as it is, anything else is
  joined to the base.
\<close>

definition exampleParse :: UrlParser where
  "exampleParse input base =
     (if take 8 input = ''https://'' then Some \<lparr>protocol = ''https:'', href = input\<rparr>
      else if take 7 input = ''http://'' then Some \<lparr>protocol = ''http:'', href = input\<rparr>
      else case base of
             None \<Rightarrow> None
           | Some b \<Rightarrow> Some \<lparr>protocol = ''http:'', href = b @ input\<rparr>)"

definition exampleClient :: HttpClient where
  "exampleClient = \<lparr>baseUrl = ''http://localhost:3000'', baseReqOpts = None\<rparr>"

definition exampleUrl :: URL where
  "exampleUrl = \<lparr>protocol = ''http:'', href = ''http://localhost:3000/''\<rparr>"

definition methodOnly :: "Method \<Rightarrow> RequestOptions" where
  "methodOnly m = \<lparr>httpMethod = Defined m, headers = Absent, others = Map.empty\<rparr>"

subsection \<open>The precedence of the options, in the words of the spec\<close>

text \<open>
  "Transport options (merged: base defaults < per-call overrides < orchestrator-derived
  content-length)", with the method fixed by the wrapper: every key is looked up in the
  per-call options first, where a key given as \<open>undefined\<close> is an override like any
  other, and in the base options second; a derived length is written over whatever
  \<open>content-length\<close> the resulting headers hold.
\<close>

definition optionsOf :: "RequestOptions option \<Rightarrow> RequestOptions" where
  "optionsOf x = (case x of None \<Rightarrow> noOpts | Some opts \<Rightarrow> opts)"

definition mergedOptions ::
  "RequestOptions option \<Rightarrow> RequestOptions option \<Rightarrow> Method \<Rightarrow> nat option \<Rightarrow> RequestOptions" where
  "mergedOptions base perCall m contentLength =
     (let b = optionsOf base;
          r = optionsOf perCall;
          h = (case headers r of
                 Absent \<Rightarrow> headers b
               | Undefined \<Rightarrow> Undefined
               | Defined hs \<Rightarrow> Defined hs)
      in \<lparr>httpMethod = Defined m,
          headers =
            (case contentLength of
               None \<Rightarrow> h
             | Some n \<Rightarrow>
                 Defined ((case h of
                             Absent \<Rightarrow> Map.empty
                           | Undefined \<Rightarrow> Map.empty
                           | Defined hs \<Rightarrow> hs)
                            (''content-length'' \<mapsto> HNumber (int n)))),
          others = (\<lambda>k. case others r k of Some v \<Rightarrow> Some v | None \<Rightarrow> others b k)\<rparr>)"

text \<open>A sink with one listener, which throws, on the events of kind \<open>t\<close>.\<close>

definition throwOn :: "EventType \<Rightarrow> Sink" where
  "throwOn t ev = (if evType ev = t then Some (Error ''unexpected event'') else None)"

text \<open>The state of the request after the call, whether it returned or threw.\<close>

definition returnedState :: "(JsError \<times> RequestState) + RequestState \<Rightarrow> RequestState" where
  "returnedState r = (case r of Inl (e, st) \<Rightarrow> st | Inr st \<Rightarrow> st)"

section \<open>Auxiliary facts\<close>

lemmas handler_defs =
  onSocket_def onConnect_def onResponse_def onError_def onDataError_def
  publish_def settle_def emitResolve_def emitReject_def throwUncaught_def Let_def

lemma outcome_deliver_settled:
  "outcome st \<noteq> Pending \<Longrightarrow> outcome (deliver tel s st) = outcome st"
  by (cases s) (auto simp: handler_defs split: option.splits prod.splits)

lemma outcome_run_settled:
  "outcome st \<noteq> Pending \<Longrightarrow> outcome (run tel st sigs) = outcome st"
  by (induction sigs arbitrary: st) (simp_all add: outcome_deliver_settled)

lemma run_append: "run tel st (xs @ ys) = run tel (run tel st xs) ys"
  by (induction xs arbitrary: st) simp_all

lemma inFlight_socket:
  "inFlight b st \<Longrightarrow> inFlight b (deliver tel Socket st)"
  by (auto simp: inFlight_def handler_defs split: option.splits)

lemma inFlight_connect:
  "inFlight b st \<Longrightarrow> inFlight b (deliver tel Connect st)"
  by (auto simp: inFlight_def handler_defs split: option.splits)

lemma inFlight_dataError:
  "inFlight False st \<Longrightarrow> inFlight False (deliver tel (DataError e) st)"
  by (auto simp: inFlight_def handler_defs split: option.splits)

lemma inFlight_response:
  "neverThrows tel \<Longrightarrow> inFlight b st \<Longrightarrow> outcome (deliver tel (Response r) st) = Fulfilled r"
  by (auto simp: inFlight_def neverThrows_def handler_defs split: option.splits)

lemma inFlight_reqError:
  "neverThrows tel \<Longrightarrow> inFlight b st \<Longrightarrow> outcome (deliver tel (ReqError e) st) = Rejected e"
  by (auto simp: inFlight_def neverThrows_def handler_defs split: option.splits)

lemma inFlight_stream_dataError:
  "neverThrows tel \<Longrightarrow> inFlight True st \<Longrightarrow> outcome (deliver tel (DataError e) st) = Rejected e"
  by (auto simp: inFlight_def neverThrows_def handler_defs split: option.splits)

lemma outcome_run_inFlight:
  "neverThrows tel \<Longrightarrow> inFlight b st \<Longrightarrow> outcome (run tel st sigs) = firstTerminal b sigs"
proof (induction sigs arbitrary: st)
  case Nil
  then show ?case by (simp add: inFlight_def)
next
  case (Cons s ss)
  show ?case
  proof (cases s)
    case Socket
    with Cons show ?thesis using inFlight_socket [of b st tel] by simp
  next
    case Connect
    with Cons show ?thesis using inFlight_connect [of b st tel] by simp
  next
    case (Response r)
    with Cons show ?thesis
      using inFlight_response [of tel b st r] outcome_run_settled [of "deliver tel (Response r) st" tel ss]
      by simp
  next
    case (ReqError e)
    with Cons show ?thesis
      using inFlight_reqError [of tel b st e] outcome_run_settled [of "deliver tel (ReqError e) st" tel ss]
      by simp
  next
    case (DataError e)
    show ?thesis
    proof (cases b)
      case True
      with Cons DataError show ?thesis
        using inFlight_stream_dataError [of tel st e]
          outcome_run_settled [of "deliver tel (DataError e) st" tel ss]
        by simp
    next
      case False
      with Cons DataError show ?thesis using inFlight_dataError [of st tel e] by simp
    qed
  qed
qed

lemma request_inFlight:
  "request parse this p opts data tel = Inr st \<Longrightarrow> accepted data \<Longrightarrow> inFlight (isReadable data) st"
  by (auto simp: request_def accepted_def inFlight_def publish_def idle_def Let_def
      split: if_splits option.splits prod.splits)

lemma request_rejected_body:
  "truthy data \<Longrightarrow> \<not> isConsumable data \<Longrightarrow>
   request parse this p opts data tel =
     Inr (idle\<lparr>outcome := Rejected (TypeError ''body must be one of: Readable, Buffer, string'')\<rparr>)"
  by (simp add: request_def)

lemma precedes_snoc: "precedes a b xs \<Longrightarrow> x \<noteq> b \<Longrightarrow> precedes a b (xs @ [x])"
  by (induction xs) (auto split: if_splits)

lemma precedes_append: "a \<in> set xs \<Longrightarrow> precedes a b xs \<Longrightarrow> precedes a b (xs @ ys)"
  by (induction xs) (auto split: if_splits)

lemma telemetryInv_socket: "telemetryInv st \<Longrightarrow> telemetryInv (onSocket (Some sink) st)"
  by (auto simp: telemetryInv_def kinds_def event_def handler_defs precedes_snoc
      split: option.splits)

lemma telemetryInv_connect: "telemetryInv st \<Longrightarrow> telemetryInv (onConnect (Some sink) st)"
  by (auto simp: telemetryInv_def kinds_def event_def handler_defs precedes_append
      split: option.splits)

lemma telemetryInv_response: "telemetryInv st \<Longrightarrow> telemetryInv (onResponse (Some sink) r st)"
  by (auto simp: telemetryInv_def kinds_def event_def handler_defs precedes_snoc
      split: option.splits)

lemma telemetryInv_error: "telemetryInv st \<Longrightarrow> telemetryInv (onError (Some sink) e st)"
  by (auto simp: telemetryInv_def kinds_def event_def handler_defs precedes_snoc
      split: option.splits)

lemma telemetryInv_dataError: "telemetryInv st \<Longrightarrow> telemetryInv (onDataError (Some sink) e st)"
  by (auto simp: telemetryInv_def kinds_def event_def handler_defs precedes_snoc
      split: option.splits)

lemma telemetryInv_deliver: "telemetryInv st \<Longrightarrow> telemetryInv (deliver (Some sink) s st)"
  by (cases s)
     (simp_all add: telemetryInv_socket telemetryInv_connect telemetryInv_response
        telemetryInv_error telemetryInv_dataError)

lemma telemetryInv_run: "telemetryInv st \<Longrightarrow> telemetryInv (run (Some sink) st sigs)"
  by (induction sigs arbitrary: st) (simp_all add: telemetryInv_deliver)

lemma published_deliver: "\<exists>more. published (deliver tel s st) = published st @ more"
  by (cases s) (auto simp: handler_defs split: option.splits)

lemma published_run: "\<exists>more. published (run tel st sigs) = published st @ more"
proof (induction sigs arbitrary: st)
  case Nil
  then show ?case by simp
next
  case (Cons s ss)
  obtain m1 where m1: "published (deliver tel s st) = published st @ m1"
    using published_deliver by blast
  obtain m2 where "published (run tel (deliver tel s st) ss) = published (deliver tel s st) @ m2"
    using Cons.IH by blast
  with m1 show ?case by simp
qed

lemma kinds_deliver_subset:
  "set (kinds (deliver tel s st)) \<subseteq> insert (kindOf s) (set (kinds st))"
  by (cases s) (auto simp: kinds_def event_def handler_defs split: option.splits)

lemma kinds_run_subset:
  "set (kinds (run tel st sigs)) \<subseteq> set (kinds st) \<union> kindOf ` set sigs"
proof (induction sigs arbitrary: st)
  case Nil
  then show ?case by simp
next
  case (Cons s ss)
  have "set (kinds (run tel (deliver tel s st) ss))
          \<subseteq> set (kinds (deliver tel s st)) \<union> kindOf ` set ss"
    by (rule Cons.IH)
  with kinds_deliver_subset [of tel s st] show ?case by auto
qed

lemma telemetryInv_transportDeliver:
  "telemetryInv st \<Longrightarrow> telemetryInv (transportDeliver (Some sink) s st)"
  by (simp add: transportDeliver_def telemetryInv_deliver)

lemma telemetryInv_transportRun:
  "telemetryInv st \<Longrightarrow> telemetryInv (transportRun (Some sink) st sigs)"
  by (induction sigs arbitrary: st) (simp_all add: telemetryInv_transportDeliver)

lemma destroyed_transportDeliver:
  "destroyed st \<Longrightarrow>
   destroyed (transportDeliver tel s st) \<and> published (transportDeliver tel s st) = published st"
  by (cases s) (auto simp: transportDeliver_def handler_defs)

lemma failedLast_deliver:
  "telemetryInv st \<Longrightarrow> \<not> destroyed st \<Longrightarrow> failedLast (deliver (Some sink) s st)"
  by (cases s)
     (auto simp: failedLast_def telemetryInv_def kinds_def event_def handler_defs
        split: option.splits)

lemma failedLast_transportDeliver:
  "telemetryInv st \<Longrightarrow> failedLast st \<Longrightarrow> failedLast (transportDeliver (Some sink) s st)"
proof (cases "destroyed st")
  case True
  assume "failedLast st"
  with destroyed_transportDeliver [OF True, of "Some sink" s] show ?thesis
    by (simp add: failedLast_def kinds_def)
next
  case False
  assume "telemetryInv st"
  with False show ?thesis
    by (simp add: transportDeliver_def failedLast_deliver)
qed

lemma failedLast_transportRun:
  "telemetryInv st \<Longrightarrow> failedLast st \<Longrightarrow> failedLast (transportRun (Some sink) st sigs)"
  by (induction sigs arbitrary: st)
     (simp_all add: telemetryInv_transportDeliver failedLast_transportDeliver)

lemma published_transportRun: "\<exists>more. published (transportRun tel st sigs) = published st @ more"
proof (induction sigs arbitrary: st)
  case Nil
  then show ?case by simp
next
  case (Cons s ss)
  have "\<exists>m. published (transportDeliver tel s st) = published st @ m"
    using published_deliver [of tel s st] by (simp add: transportDeliver_def)
  then obtain m1 where m1: "published (transportDeliver tel s st) = published st @ m1"
    by blast
  obtain m2 where
    "published (transportRun tel (transportDeliver tel s st) ss)
       = published (transportDeliver tel s st) @ m2"
    using Cons.IH by blast
  with m1 show ?case by simp
qed

lemma kinds_transportRun_subset:
  "set (kinds (transportRun tel st sigs)) \<subseteq> set (kinds st) \<union> kindOf ` set sigs"
proof (induction sigs arbitrary: st)
  case Nil
  then show ?case by simp
next
  case (Cons s ss)
  have a: "set (kinds (transportDeliver tel s st)) \<subseteq> insert (kindOf s) (set (kinds st))"
    using kinds_deliver_subset [of tel s st] by (auto simp: transportDeliver_def)
  have "set (kinds (transportRun tel (transportDeliver tel s st) ss))
          \<subseteq> set (kinds (transportDeliver tel s st)) \<union> kindOf ` set ss"
    by (rule Cons.IH)
  with a show ?case by auto
qed

lemma sentOptions_request:
  "request parse this p reqOpts data tel = Inr st \<Longrightarrow> accepted data \<Longrightarrow>
   sentOptions (ops st) = [assignContentLength reqOpts data]"
  by (auto simp: request_def accepted_def publish_def idle_def Let_def
      split: if_splits option.splits prod.splits)

lemma example_request:
  "baseUrl this = ''http://localhost:3000'' \<Longrightarrow> accepted data \<Longrightarrow>
   request exampleParse this (Path ''/'') reqOpts data (Some quietSink)
     = Inr (idle\<lparr>socketL := True, responseL := True, errorL := True,
                dataErrorL := isReadable data, resolveL := True, rejectL := True,
                ops := [HttpRequest exampleUrl (assignContentLength reqOpts data),
                        SetMaxListeners 5] @
                       (if isReadable data then [DataOnceError, DataPipe] else [ReqEnd data]),
                published := [\<lparr>evType = RequestStreamInitialised,
                                evData = Some (exampleUrl, assignContentLength reqOpts data),
                                evError = None\<rparr>,
                              event RequestStreamEnded]\<rparr>)"
  by (auto simp: request_def accepted_def buildUrl_def exampleParse_def
      exampleUrl_def publish_def quietSink_def idle_def Let_def)

lemma exampleClient_baseUrl: "baseUrl exampleClient = ''http://localhost:3000''"
  by (simp add: exampleClient_def)

lemma combineOpts_merged:
  "assignContentLength (combineOpts this m ro) data
     = mergedOptions (baseReqOpts this) ro m (getContentLength data)"
  by (cases "baseReqOpts this"; cases ro)
     (auto simp: assignContentLength_def combineOpts_def mergedOptions_def spread_def
        own_def optionsOf_def noOpts_def map_add_def Let_def fun_eq_iff
      split: option.splits Property.splits)

lemma buffer_content_length:
  "headers (assignContentLength reqOpts (JBuffer b))
     = Defined ((case headers reqOpts of
                   Absent \<Rightarrow> Map.empty
                 | Undefined \<Rightarrow> Map.empty
                 | Defined h \<Rightarrow> h)
                  (''content-length'' \<mapsto> HNumber (int (length b))))"
  by (simp add: assignContentLength_def)

lemma utf8ByteLength_ascii: "\<forall>c \<in> set s. c < 0x80 \<Longrightarrow> utf8ByteLength s = length s"
  by (induction s) simp_all

lemma latchInv_deliver: "latchInv st \<Longrightarrow> latchInv (deliver tel s st)"
  by (cases s) (auto simp: latchInv_def handler_defs split: option.splits)

lemma latchInv_run: "latchInv st \<Longrightarrow> latchInv (run tel st sigs)"
  by (induction sigs arbitrary: st) (simp_all add: latchInv_deliver)

lemma request_latchInv:
  "request parse this p opts data tel = Inr st \<Longrightarrow> accepted data \<Longrightarrow> latchInv st"
  by (auto simp: request_def accepted_def latchInv_def publish_def idle_def Let_def
      split: if_splits option.splits prod.splits)

lemma deliver_without_sink:
  "\<forall>ev. sink ev = None \<Longrightarrow>
   deliver None s (st\<lparr>published := []\<rparr>) = (deliver (Some sink) s st)\<lparr>published := []\<rparr>"
  by (cases s) (auto simp: handler_defs)

lemma run_without_sink:
  assumes "\<forall>ev. sink ev = None"
  shows "run None (st\<lparr>published := []\<rparr>) sigs = (run (Some sink) st sigs)\<lparr>published := []\<rparr>"
proof (induction sigs arbitrary: st)
  case Nil
  show ?case by simp
next
  case (Cons s ss)
  have "run None (st\<lparr>published := []\<rparr>) (s # ss)
          = run None (deliver None s (st\<lparr>published := []\<rparr>)) ss"
    by (simp only: run.simps)
  also have "\<dots> = run None ((deliver (Some sink) s st)\<lparr>published := []\<rparr>) ss"
    by (simp only: deliver_without_sink [OF assms])
  also have "\<dots> = (run (Some sink) (deliver (Some sink) s st) ss)\<lparr>published := []\<rparr>"
    by (rule Cons.IH)
  finally show ?case by (simp only: run.simps)
qed

lemma request_without_sink:
  "\<forall>ev. sink ev = None \<Longrightarrow> request parse this p opts data (Some sink) = Inr st \<Longrightarrow>
   request parse this p opts data None = Inr (st\<lparr>published := []\<rparr>)"
  by (auto simp: request_def publish_def idle_def Let_def
      split: if_splits option.splits prod.splits)

lemma request_stream_ops:
  "request parse this p opts (JReadable rid) tel = Inr st \<Longrightarrow>
   \<exists>xs. ops st = xs @ [DataOnceError, DataPipe]"
  by (auto simp: request_def isConsumable_def publish_def idle_def Let_def
      split: if_splits option.splits prod.splits)

lemma request_telemetry_any:
  "st = returnedState (request parse this p opts data (Some sink)) \<Longrightarrow>
   telemetryInv st \<and> \<not> destroyed st \<and>
   (kinds st = [] \<or> kinds st = [RequestStreamInitialised] \<or>
    kinds st = [RequestStreamInitialised, RequestStreamEnded])"
  by (auto simp: request_def returnedState_def telemetryInv_def kinds_def publish_def idle_def
        event_def Let_def
      split: if_splits option.splits prod.splits)

lemma transportRun_append:
  "transportRun tel st (xs @ ys) = transportRun tel (transportRun tel st xs) ys"
  by (induction xs arbitrary: st) simp_all

lemma transportRun_destroyed:
  "destroyed st \<Longrightarrow>
   destroyed (transportRun tel st sigs) \<and> published (transportRun tel st sigs) = published st"
proof (induction sigs arbitrary: st)
  case Nil
  then show ?case by simp
next
  case (Cons s ss)
  from destroyed_transportDeliver [OF Cons.prems, of tel s]
  have d: "destroyed (transportDeliver tel s st)"
    and p: "published (transportDeliver tel s st) = published st" by simp_all
  from Cons.IH [OF d] p show ?case by simp
qed

lemma outcome_transportRun_settled:
  "outcome st \<noteq> Pending \<Longrightarrow> outcome (transportRun tel st sigs) = outcome st"
  by (induction sigs arbitrary: st)
     (simp_all add: transportDeliver_def outcome_deliver_settled)

lemma rank_less: "rank k \<le> rank x \<Longrightarrow> k \<noteq> x \<Longrightarrow> rank k < rank x"
  by (cases k; cases x) simp_all

lemma stage_rank: "isStage s \<Longrightarrow> 2 \<le> rank (kindOf s)"
  by (cases s) simp_all

lemma rank_le_error: "rank k \<le> rank RequestError"
  by (cases k) simp_all

lemma rank_sorted_snoc:
  "sorted_wrt (<) (map rank ks) \<Longrightarrow> \<forall>k \<in> set ks. rank k \<le> rank x \<Longrightarrow> x \<notin> set ks \<Longrightarrow>
   sorted_wrt (<) (map rank (ks @ [x]))"
  by (auto simp: sorted_wrt_append intro: rank_less)

lemma inStageOrder_tail: "inStageOrder (s # ss) \<Longrightarrow> inStageOrder ss"
  by (cases "isStage s") (simp_all add: inStageOrder_def)

lemma inStageOrder_head:
  "inStageOrder (s # ss) \<Longrightarrow> isStage s \<Longrightarrow> t \<in> set ss \<Longrightarrow> isStage t \<Longrightarrow>
   rank (kindOf s) \<le> rank (kindOf t)"
  by (auto simp: inStageOrder_def)

lemma belowRest_tail: "belowRest ks (s # ss) \<Longrightarrow> belowRest ks ss"
  by (simp add: belowRest_def)

lemma belowRest_snoc:
  "belowRest ks (s # ss) \<Longrightarrow> inStageOrder (s # ss) \<Longrightarrow> isStage s \<Longrightarrow>
   belowRest (ks @ [kindOf s]) ss"
  by (auto simp: belowRest_def dest: inStageOrder_head)

lemma kinds_deliver_stage:
  "isStage s \<Longrightarrow> telemetryInv st \<Longrightarrow>
   destroyed (deliver (Some sink) s st) = destroyed st \<and>
   (kinds (deliver (Some sink) s st) = kinds st \<or>
    kindOf s \<notin> set (kinds st) \<and> kinds (deliver (Some sink) s st) = kinds st @ [kindOf s])"
  by (cases s)
     (auto simp: telemetryInv_def kinds_def event_def handler_defs split: option.splits)

lemma kinds_deliver_error:
  "\<not> isStage s \<Longrightarrow> telemetryInv st \<Longrightarrow>
   kinds (deliver (Some sink) s st) = kinds st \<or>
   RequestError \<notin> set (kinds st) \<and> destroyed (deliver (Some sink) s st) \<and>
     kinds (deliver (Some sink) s st) = kinds st @ [RequestError]"
  by (cases s)
     (auto simp: telemetryInv_def kinds_def event_def handler_defs split: option.splits)

lemma rank_sorted_transportRun:
  "telemetryInv st \<Longrightarrow> sorted_wrt (<) (map rank (kinds st)) \<Longrightarrow>
   (\<not> destroyed st \<longrightarrow> belowRest (kinds st) sigs) \<Longrightarrow> inStageOrder sigs \<Longrightarrow>
   sorted_wrt (<) (map rank (kinds (transportRun (Some sink) st sigs)))"
proof (induction sigs arbitrary: st)
  case Nil
  then show ?case by simp
next
  case (Cons s ss)
  show ?case
  proof (cases "destroyed st")
    case True
    from transportRun_destroyed [OF True, of "Some sink" "s # ss"] Cons.prems(2)
    show ?thesis by (simp add: kinds_def)
  next
    case False
    let ?st = "deliver (Some sink) s st"
    from False have t: "transportDeliver (Some sink) s st = ?st"
      by (simp add: transportDeliver_def)
    from False Cons.prems(3) have b: "belowRest (kinds st) (s # ss)" by simp
    have inv: "telemetryInv ?st" by (rule telemetryInv_deliver [OF Cons.prems(1)])
    have ord: "inStageOrder ss" by (rule inStageOrder_tail [OF Cons.prems(4)])
    have "sorted_wrt (<) (map rank (kinds ?st)) \<and>
          (\<not> destroyed ?st \<longrightarrow> belowRest (kinds ?st) ss)"
    proof (cases "isStage s")
      case True
      from kinds_deliver_stage [OF True Cons.prems(1), of sink]
      consider "kinds ?st = kinds st"
        | "kindOf s \<notin> set (kinds st)" "kinds ?st = kinds st @ [kindOf s]"
        by blast
      then show ?thesis
      proof cases
        case 1
        with Cons.prems(2) belowRest_tail [OF b] show ?thesis by simp
      next
        case 2
        from b True have "\<forall>k \<in> set (kinds st). rank k \<le> rank (kindOf s)"
          by (simp add: belowRest_def)
        from rank_sorted_snoc [OF Cons.prems(2) this 2(1)]
          belowRest_snoc [OF b Cons.prems(4) True] 2(2)
        show ?thesis by simp
      qed
    next
      case False
      from kinds_deliver_error [OF False Cons.prems(1), of sink]
      consider "kinds ?st = kinds st"
        | "RequestError \<notin> set (kinds st)" "destroyed ?st"
          "kinds ?st = kinds st @ [RequestError]"
        by blast
      then show ?thesis
      proof cases
        case 1
        with Cons.prems(2) belowRest_tail [OF b] show ?thesis by simp
      next
        case 2
        have "\<forall>k \<in> set (kinds st). rank k \<le> rank RequestError"
          by (blast intro: rank_le_error)
        from rank_sorted_snoc [OF Cons.prems(2) this 2(1)] 2(2,3)
        show ?thesis by simp
      qed
    qed
    then have "sorted_wrt (<) (map rank (kinds (transportRun (Some sink) ?st ss)))"
      using Cons.IH [OF inv _ _ ord] by blast
    with t show ?thesis by simp
  qed
qed

lemma beforeConnect_sockets:
  "neverThrows (Some sink) \<Longrightarrow> beforeConnect b st \<Longrightarrow> set pre \<subseteq> {Socket} \<Longrightarrow>
   beforeConnect (b \<or> pre \<noteq> []) (transportRun (Some sink) st pre)"
proof (induction pre arbitrary: st b)
  case Nil
  then show ?case by simp
next
  case (Cons s ss)
  from Cons.prems(3) have s: "s = Socket" and ss: "set ss \<subseteq> {Socket}" by auto
  from Cons.prems(1) have q: "\<And>ev. sink ev = None" by (simp add: neverThrows_def)
  from Cons.prems(2) q have "beforeConnect True (transportDeliver (Some sink) Socket st)"
    by (cases b)
       (auto simp: beforeConnect_def transportDeliver_def kinds_def event_def onSocket_def
          publish_def)
  from Cons.IH [OF Cons.prems(1) this ss] s show ?case by simp
qed

lemma beforeConnect_error:
  assumes "neverThrows (Some sink)" and "beforeConnect b st"
  shows "kinds (transportDeliver (Some sink) (ReqError e) st) = kinds st @ [RequestError] \<and>
         outcome (transportDeliver (Some sink) (ReqError e) st) = Rejected e \<and>
         destroyed (transportDeliver (Some sink) (ReqError e) st) \<and>
         last (published (transportDeliver (Some sink) (ReqError e) st))
           = \<lparr>evType = RequestError, evData = None, evError = Some e\<rparr>"
proof -
  from assms(1) have q: "\<And>ev. sink ev = None" by (simp add: neverThrows_def)
  from assms(2) q show ?thesis
    by (auto simp: beforeConnect_def transportDeliver_def kinds_def handler_defs)
qed

lemma request_beforeConnect:
  "request parse this p opts data (Some sink) = Inr st \<Longrightarrow> accepted data \<Longrightarrow>
   beforeConnect False st"
  by (auto simp: request_def accepted_def beforeConnect_def kinds_def publish_def idle_def
        event_def Let_def
      split: if_splits option.splits prod.splits)

section \<open>The claims\<close>

text \<open>
  C1. The Outcome of a request settles at most once; exactly one of success (on the
  response signal) or failure (on the error signal) occurs; a duplicate or late signal
  cannot settle it again. The listener of lines 120-134 publishes RequestFailed before
  it rejects: when a listener of the sink throws there, the error signal has arrived
  and the Outcome stays pending, neither success nor failure.
\<close>

theorem outcome_pending_after_error_counterexample:
  "map_sum id outcome
     (lifecycle exampleParse exampleClient (Path ''/'') (methodOnly Get) JUndefined
        (Some (throwOn RequestError)) [ReqError (SystemError ''ENOTFOUND'')]) = Inr Pending \<and>
   map_sum id uncaught
     (lifecycle exampleParse exampleClient (Path ''/'') (methodOnly Get) JUndefined
        (Some (throwOn RequestError)) [ReqError (SystemError ''ENOTFOUND'')])
     = Inr [Error ''unexpected event'']"
  by (simp add: lifecycle_def request_def isConsumable_def assignContentLength_def
      buildUrl_def exampleParse_def exampleClient_def throwOn_def publish_def idle_def
      event_def onError_def throwUncaught_def Let_def)

text \<open>
  C1, amended. Whatever the sink does and whatever signals arrive, a settled Outcome
  never changes. When the sink is absent or its listeners return, the Outcome is the one
  of the first terminal signal: fulfilled with the response, or rejected with the error
  of the request or of the body stream; signals after it change nothing.
\<close>

theorem outcome_settles_once:
  assumes "request parse this p reqOpts data tel = Inr st"
  shows "(outcome (run tel st pre) \<noteq> Pending \<longrightarrow>
            outcome (run tel st (pre @ later)) = outcome (run tel st pre)) \<and>
         (neverThrows tel \<and> accepted data \<longrightarrow>
            outcome (run tel st sigs) = firstTerminal (isReadable data) sigs)"
proof -
  have "outcome (run tel st pre) \<noteq> Pending \<longrightarrow>
          outcome (run tel st (pre @ later)) = outcome (run tel st pre)"
    by (simp add: run_append outcome_run_settled)
  moreover have "neverThrows tel \<and> accepted data \<longrightarrow>
          outcome (run tel st sigs) = firstTerminal (isReadable data) sigs"
    using request_inFlight [OF assms] outcome_run_inFlight [of tel "isReadable data" st sigs]
    by blast
  ultimately show ?thesis by blast
qed

theorem outcome_settles_once_witness:
  "neverThrows (Some quietSink) \<and> accepted JUndefined \<and>
   map_sum id outcome
     (lifecycle exampleParse exampleClient (Path ''/'') (methodOnly Get) JUndefined
        (Some quietSink) [Socket, Connect, Response (IncomingMessage [72, 105])])
     = Inr (Fulfilled (IncomingMessage [72, 105])) \<and>
   map_sum id outcome
     (lifecycle exampleParse exampleClient (Path ''/'') (methodOnly Get) JUndefined
        (Some quietSink)
        ([Socket, Connect, Response (IncomingMessage [72, 105])] @
         [ReqError (SystemError ''ECONNRESET''), Response (IncomingMessage [])]))
     = Inr (Fulfilled (IncomingMessage [72, 105]))"
proof -
  have q: "neverThrows (Some quietSink)" by (simp add: neverThrows_def quietSink_def)
  have acc: "accepted JUndefined" by (simp add: accepted_def)
  define S where "S = returnedState (request exampleParse exampleClient (Path ''/'')
      (methodOnly Get) JUndefined (Some quietSink))"
  have r: "request exampleParse exampleClient (Path ''/'') (methodOnly Get) JUndefined
             (Some quietSink) = Inr S"
    by (simp add: S_def returnedState_def
        example_request [OF exampleClient_baseUrl acc, of "methodOnly Get"])
  note t = outcome_settles_once [OF r,
      of "[Socket, Connect, Response (IncomingMessage [72, 105])]"
         "[ReqError (SystemError ''ECONNRESET''), Response (IncomingMessage [])]"
         "[Socket, Connect, Response (IncomingMessage [72, 105])]"]
  from t q acc
  have a: "outcome (run (Some quietSink) S [Socket, Connect, Response (IncomingMessage [72, 105])])
             = Fulfilled (IncomingMessage [72, 105])"
    by simp
  with t
  have b: "outcome (run (Some quietSink) S
             ([Socket, Connect, Response (IncomingMessage [72, 105])] @
              [ReqError (SystemError ''ECONNRESET''), Response (IncomingMessage [])]))
             = Fulfilled (IncomingMessage [72, 105])"
    by simp
  from q acc a b show ?thesis
    by (simp only: lifecycle_def r sum.case map_sum.simps id_apply simp_thms)
qed

text \<open>
  C2. The events of a request are published in the stage order RequestInitiated,
  SocketObtained, ConnectionEstablished, BodyTransmissionCompleted, ResponseReceived,
  each at most once and only when its stage is reached, and nothing after
  RequestFailed. Lines 154-157 publish BodyTransmissionCompleted before \<open>request\<close>
  returns, so it comes second, before any signal of the transport.
\<close>

theorem body_completed_second_counterexample:
  "map_sum id kinds
     (lifecycle exampleParse exampleClient (Path ''/'') (methodOnly Get) JUndefined
        (Some quietSink) [Socket, Connect, Response (IncomingMessage [])])
     = Inr [RequestStreamInitialised, RequestStreamEnded, SocketObtained,
            ConnectionEstablished, ResponseStreamReceived]"
proof -
  have acc: "accepted JUndefined" by (simp add: accepted_def)
  note r = example_request [OF exampleClient_baseUrl acc, of "methodOnly Get"]
  show ?thesis
    by (simp add: lifecycle_def r kinds_def idle_def event_def quietSink_def handler_defs)
qed

text \<open>
  C2, amended. For every call of \<open>request\<close> with a sink, whether it returns or throws,
  and every sequence of signals: no kind is published twice, ConnectionEstablished
  never before SocketObtained, and SocketObtained, ConnectionEstablished,
  ResponseReceived and RequestFailed only on their signals. On a transport that emits
  nothing more from a destroyed request, no event follows RequestFailed; and when that
  transport emits its socket, connect and response signals in this order, the events
  are published in the order RequestInitiated, BodyTransmissionCompleted,
  SocketObtained, ConnectionEstablished, ResponseReceived, RequestFailed. When the call
  returns its Promise for an accepted body, RequestInitiated and
  BodyTransmissionCompleted are the two first events.
\<close>

theorem telemetry_stage_order:
  assumes "st = returnedState (request parse this p reqOpts data (Some sink))"
  shows "distinct (kinds (run (Some sink) st sigs)) \<and>
         precedes SocketObtained ConnectionEstablished (kinds (run (Some sink) st sigs)) \<and>
         set (kinds (transportRun (Some sink) st sigs))
           \<subseteq> {RequestStreamInitialised, RequestStreamEnded} \<union> kindOf ` set sigs \<and>
         failedLast (transportRun (Some sink) st sigs) \<and>
         (inStageOrder sigs \<longrightarrow>
            sorted_wrt (<) (map rank (kinds (transportRun (Some sink) st sigs)))) \<and>
         (request parse this p reqOpts data (Some sink) = Inr st \<and> accepted data \<longrightarrow>
            take 2 (kinds (transportRun (Some sink) st sigs))
              = [RequestStreamInitialised, RequestStreamEnded])"
proof -
  from request_telemetry_any [OF assms] have inv: "telemetryInv st" and live: "\<not> destroyed st"
    and ks: "kinds st = [] \<or> kinds st = [RequestStreamInitialised] \<or>
             kinds st = [RequestStreamInitialised, RequestStreamEnded]"
    by simp_all
  from telemetryInv_run [OF inv, of sink sigs]
  have a: "distinct (kinds (run (Some sink) st sigs))"
    and b: "precedes SocketObtained ConnectionEstablished (kinds (run (Some sink) st sigs))"
    by (simp_all add: telemetryInv_def)
  from ks have "set (kinds st) \<subseteq> {RequestStreamInitialised, RequestStreamEnded}" by auto
  with kinds_transportRun_subset [of "Some sink" st sigs]
  have c: "set (kinds (transportRun (Some sink) st sigs))
             \<subseteq> {RequestStreamInitialised, RequestStreamEnded} \<union> kindOf ` set sigs"
    by auto
  from ks have "failedLast st" by (auto simp: failedLast_def)
  with inv have d: "failedLast (transportRun (Some sink) st sigs)"
    by (rule failedLast_transportRun)
  from ks have srt: "sorted_wrt (<) (map rank (kinds st))" by auto
  from ks have "\<forall>k \<in> set (kinds st). rank k \<le> 2" by auto
  then have bel: "belowRest (kinds st) sigs"
    unfolding belowRest_def using stage_rank by (meson order_trans)
  have e: "inStageOrder sigs \<longrightarrow>
            sorted_wrt (<) (map rank (kinds (transportRun (Some sink) st sigs)))"
    using rank_sorted_transportRun [OF inv srt _ , of sigs sink] bel by blast
  have f: "request parse this p reqOpts data (Some sink) = Inr st \<and> accepted data \<longrightarrow>
            take 2 (kinds (transportRun (Some sink) st sigs))
              = [RequestStreamInitialised, RequestStreamEnded]"
  proof
    assume h: "request parse this p reqOpts data (Some sink) = Inr st \<and> accepted data"
    then have k: "kinds st = [RequestStreamInitialised, RequestStreamEnded]"
      using request_beforeConnect [of parse this p reqOpts "data" sink st]
      by (simp add: beforeConnect_def)
    obtain more where "published (transportRun (Some sink) st sigs) = published st @ more"
      using published_transportRun by blast
    then have "kinds (transportRun (Some sink) st sigs) = kinds st @ map evType more"
      by (simp add: kinds_def)
    with k show "take 2 (kinds (transportRun (Some sink) st sigs))
              = [RequestStreamInitialised, RequestStreamEnded]" by simp
  qed
  from a b c d e f show ?thesis by blast
qed

theorem telemetry_stage_order_witness:
  "inStageOrder [Socket, Connect, ReqError (SystemError ''ECONNRESET''),
                 Response (IncomingMessage [])] \<and>
   accepted JUndefined \<and>
   kinds (transportRun (Some quietSink)
            (returnedState (request exampleParse exampleClient (Path ''/'') (methodOnly Get)
               JUndefined (Some quietSink)))
            [Socket, Connect, ReqError (SystemError ''ECONNRESET''),
             Response (IncomingMessage [])])
     = [RequestStreamInitialised, RequestStreamEnded, SocketObtained,
        ConnectionEstablished, RequestError] \<and>
   sorted_wrt (<) (map rank
     (kinds (transportRun (Some quietSink)
            (returnedState (request exampleParse exampleClient (Path ''/'') (methodOnly Get)
               JUndefined (Some quietSink)))
            [Socket, Connect, ReqError (SystemError ''ECONNRESET''),
             Response (IncomingMessage [])]))) \<and>
   take 2 (kinds (transportRun (Some quietSink)
            (returnedState (request exampleParse exampleClient (Path ''/'') (methodOnly Get)
               JUndefined (Some quietSink)))
            [Socket, Connect, ReqError (SystemError ''ECONNRESET''),
             Response (IncomingMessage [])]))
     = [RequestStreamInitialised, RequestStreamEnded]"
proof -
  have acc: "accepted JUndefined" by (simp add: accepted_def)
  have o: "inStageOrder [Socket, Connect, ReqError (SystemError ''ECONNRESET''),
                 Response (IncomingMessage [])]"
    by (simp add: inStageOrder_def)
  define S where "S = returnedState (request exampleParse exampleClient (Path ''/'')
      (methodOnly Get) JUndefined (Some quietSink))"
  note e = example_request [OF exampleClient_baseUrl acc, of "methodOnly Get"]
  have r: "request exampleParse exampleClient (Path ''/'') (methodOnly Get) JUndefined
             (Some quietSink) = Inr S"
    by (simp add: S_def returnedState_def e)
  have k: "kinds (transportRun (Some quietSink) S
            [Socket, Connect, ReqError (SystemError ''ECONNRESET''),
             Response (IncomingMessage [])])
     = [RequestStreamInitialised, RequestStreamEnded, SocketObtained,
        ConnectionEstablished, RequestError]"
    by (simp add: S_def e returnedState_def kinds_def idle_def event_def quietSink_def
        transportDeliver_def handler_defs)
  note t = telemetry_stage_order [OF S_def,
      of "[Socket, Connect, ReqError (SystemError ''ECONNRESET''), Response (IncomingMessage [])]"]
  from t o have srt: "sorted_wrt (<) (map rank (kinds (transportRun (Some quietSink) S
            [Socket, Connect, ReqError (SystemError ''ECONNRESET''),
             Response (IncomingMessage [])])))"
    by blast
  from t r acc have tk: "take 2 (kinds (transportRun (Some quietSink) S
            [Socket, Connect, ReqError (SystemError ''ECONNRESET''),
             Response (IncomingMessage [])]))
     = [RequestStreamInitialised, RequestStreamEnded]"
    by blast
  from o acc k srt tk show ?thesis unfolding S_def by blast
qed

text \<open>
  C3. A Buffer or string body has its exact byte length written into the headers as
  \<open>content-length\<close>, over any value of the caller; for a string that is its byte
  length under the encoding of the transport. The source takes \<open>data.length\<close> for a
  string, the number of UTF-16 code units: for the one-character string U+00E9 the
  header says 1 while two octets are written.
\<close>

theorem text_content_length_counts_code_units:
  "map_sum id ops
     (request exampleParse exampleClient (Path ''/'') (methodOnly Post) (JString [0xE9]) None)
     = Inr [HttpRequest exampleUrl
              \<lparr>httpMethod = Defined Post, headers = Defined [''content-length'' \<mapsto> HNumber 1],
               others = Map.empty\<rparr>,
            SetMaxListeners 5, ReqEnd (JString [0xE9])] \<and>
   utf8ByteLength [0xE9] = 2"
proof -
  have "request exampleParse exampleClient (Path ''/'') (methodOnly Post) (JString [0xE9]) None
     = Inr (idle\<lparr>socketL := True, responseL := True, errorL := True,
                resolveL := True, rejectL := True,
                ops := [HttpRequest exampleUrl
                          (assignContentLength (methodOnly Post) (JString [0xE9])),
                        SetMaxListeners 5, ReqEnd (JString [0xE9])]\<rparr>)"
    by (simp add: request_def isConsumable_def buildUrl_def
      exampleParse_def exampleClient_def exampleUrl_def publish_def idle_def
      event_def Let_def)
  moreover have "assignContentLength (methodOnly Post) (JString [0xE9])
      = \<lparr>httpMethod = Defined Post, headers = Defined [''content-length'' \<mapsto> HNumber 1],
               others = Map.empty\<rparr>"
    by (simp add: assignContentLength_def methodOnly_def)
  moreover have "utf8ByteLength [0xE9] = 2" by simp
  ultimately show ?thesis by simp
qed

text \<open>
  C4. A body that is not absent, a Buffer, a string or a Readable makes \<open>request\<close>
  fail at once with the TypeError of line 69, before any connection is opened and
  before any event is published. The guard of line 67 reads \<open>data && ...\<close>, so this
  holds for the truthy values; the number 0 is not a recognised body, yet the request
  is sent.
\<close>

theorem falsy_unrecognised_body_counterexample:
  "\<not> isConsumable (JNumber 0) \<and> JNumber 0 \<noteq> JUndefined \<and>
   map_sum id outcome
     (request exampleParse exampleClient (Path ''/'') (methodOnly Post) (JNumber 0)
        (Some quietSink)) = Inr Pending \<and>
   map_sum id ops
     (request exampleParse exampleClient (Path ''/'') (methodOnly Post) (JNumber 0)
        (Some quietSink))
     = Inr [HttpRequest exampleUrl (methodOnly Post), SetMaxListeners 5, ReqEnd (JNumber 0)] \<and>
   map_sum id kinds
     (request exampleParse exampleClient (Path ''/'') (methodOnly Post) (JNumber 0)
        (Some quietSink))
     = Inr [RequestStreamInitialised, RequestStreamEnded]"
proof -
  have "accepted (JNumber 0)" by (simp add: accepted_def)
  from example_request [OF exampleClient_baseUrl this, of "methodOnly Post"] show ?thesis
    by (simp add: isConsumable_def assignContentLength_def idle_def kinds_def event_def)
qed

text \<open>
  C4, amended. A truthy body that is not a Buffer, a string or a Readable makes
  \<open>request\<close> return a Promise already rejected with the TypeError of line 69; no
  connection is opened and no event is published.
\<close>

theorem unrecognised_truthy_body_rejected:
  assumes "truthy data" and "\<not> isConsumable data"
  shows "request parse this p reqOpts data tel
           = Inr (idle\<lparr>outcome :=
                    Rejected (TypeError ''body must be one of: Readable, Buffer, string'')\<rparr>) \<and>
         ops (idle\<lparr>outcome :=
                Rejected (TypeError ''body must be one of: Readable, Buffer, string'')\<rparr>) = [] \<and>
         published (idle\<lparr>outcome :=
                Rejected (TypeError ''body must be one of: Readable, Buffer, string'')\<rparr>) = []"
  using assms by (simp add: request_def idle_def)

theorem unrecognised_truthy_body_rejected_witness:
  "truthy (JNumber 7) \<and> \<not> isConsumable (JNumber 7) \<and>
   map_sum id outcome
     (request exampleParse exampleClient (Path ''/'') (methodOnly Post) (JNumber 7)
        (Some quietSink))
     = Inr (Rejected (TypeError ''body must be one of: Readable, Buffer, string'')) \<and>
   map_sum id ops
     (request exampleParse exampleClient (Path ''/'') (methodOnly Post) (JNumber 7)
        (Some quietSink)) = Inr [] \<and>
   map_sum id published
     (request exampleParse exampleClient (Path ''/'') (methodOnly Post) (JNumber 7)
        (Some quietSink)) = Inr []"
proof -
  have t: "truthy (JNumber 7)" and c: "\<not> isConsumable (JNumber 7)"
    by (simp_all add: isConsumable_def)
  from unrecognised_truthy_body_rejected [OF t c, of exampleParse exampleClient "Path ''/''"
      "methodOnly Post" "Some quietSink"] t c
  show ?thesis by (simp add: idle_def)
qed

text \<open>
  C5. When the host cannot be resolved the Outcome fails with the name-resolution
  error and the events are exactly RequestInitiated, RequestFailed. The source has
  published BodyTransmissionCompleted before the error can arrive; and in the
  repository's own test of this scenario the listener of SocketObtained has fired
  too, the transport assigning a socket before the lookup fails.
\<close>

theorem unresolved_host_events_counterexample:
  "map_sum id kinds
     (lifecycle exampleParse exampleClient (Path ''/'') (methodOnly Get) JUndefined
        (Some quietSink) [ReqError (SystemError ''ENOTFOUND'')])
     = Inr [RequestStreamInitialised, RequestStreamEnded, RequestError] \<and>
   map_sum id kinds
     (lifecycle exampleParse exampleClient (Path ''/'') (methodOnly Get) JUndefined
        (Some quietSink) [Socket, ReqError (SystemError ''ENOTFOUND'')])
     = Inr [RequestStreamInitialised, RequestStreamEnded, SocketObtained, RequestError]"
proof -
  have acc: "accepted JUndefined" by (simp add: accepted_def)
  note r = example_request [OF exampleClient_baseUrl acc, of "methodOnly Get"]
  show ?thesis
    by (simp add: lifecycle_def r kinds_def idle_def event_def quietSink_def handler_defs)
qed

text \<open>
  C5, amended. When the error of the request arrives before any connect, response or
  stream-error signal, after no signal at all or after socket signals only (as when the
  host cannot be resolved), the listeners of the sink return, and the transport emits
  nothing more from a destroyed request, then whatever signals follow the error the
  Outcome fails with that error and the events are exactly RequestInitiated,
  BodyTransmissionCompleted, SocketObtained if a socket was assigned before the error,
  and RequestFailed carrying the error; ConnectionEstablished and ResponseReceived are
  not published.
\<close>

theorem failure_before_connect:
  assumes "request parse this p reqOpts data (Some sink) = Inr st"
    and "accepted data" and "neverThrows (Some sink)" and "set pre \<subseteq> {Socket}"
  shows "kinds (transportRun (Some sink) st (pre @ ReqError e # later))
           = [RequestStreamInitialised, RequestStreamEnded] @
             (if pre = [] then [] else [SocketObtained]) @ [RequestError] \<and>
         outcome (transportRun (Some sink) st (pre @ ReqError e # later)) = Rejected e \<and>
         last (published (transportRun (Some sink) st (pre @ ReqError e # later)))
           = \<lparr>evType = RequestError, evData = None, evError = Some e\<rparr>"
proof -
  let ?s1 = "transportRun (Some sink) st pre"
  let ?s2 = "transportDeliver (Some sink) (ReqError e) ?s1"
  have run: "transportRun (Some sink) st (pre @ ReqError e # later)
               = transportRun (Some sink) ?s2 later"
    by (simp add: transportRun_append)
  from beforeConnect_sockets [OF assms(3) request_beforeConnect [OF assms(1,2)] assms(4)]
  have b: "beforeConnect (pre \<noteq> []) ?s1" by simp
  then have k1: "kinds ?s1 = [RequestStreamInitialised, RequestStreamEnded] @
                   (if pre = [] then [] else [SocketObtained])"
    by (simp add: beforeConnect_def)
  from beforeConnect_error [OF assms(3) b, of e]
  have k2: "kinds ?s2 = kinds ?s1 @ [RequestError]"
    and o2: "outcome ?s2 = Rejected e"
    and d2: "destroyed ?s2"
    and l2: "last (published ?s2) = \<lparr>evType = RequestError, evData = None, evError = Some e\<rparr>"
    by simp_all
  from transportRun_destroyed [OF d2, of "Some sink" later]
  have p3: "published (transportRun (Some sink) ?s2 later) = published ?s2" by simp
  from o2 have o3: "outcome (transportRun (Some sink) ?s2 later) = Rejected e"
    by (simp add: outcome_transportRun_settled)
  from p3 have "kinds (transportRun (Some sink) ?s2 later) = kinds ?s2"
    by (simp add: kinds_def)
  with k1 k2 have k3: "kinds (transportRun (Some sink) ?s2 later)
           = [RequestStreamInitialised, RequestStreamEnded] @
             (if pre = [] then [] else [SocketObtained]) @ [RequestError]"
    by simp
  from k3 o3 p3 l2 show ?thesis by (simp only: run simp_thms)
qed

theorem failure_before_connect_witness:
  "accepted JUndefined \<and> neverThrows (Some quietSink) \<and>
   kinds (transportRun (Some quietSink)
            (returnedState (request exampleParse exampleClient (Path ''/'') (methodOnly Get)
               JUndefined (Some quietSink)))
            ([Socket] @ ReqError (SystemError ''ENOTFOUND'') #
               [Connect, Response (IncomingMessage [])]))
     = [RequestStreamInitialised, RequestStreamEnded, SocketObtained, RequestError] \<and>
   outcome (transportRun (Some quietSink)
            (returnedState (request exampleParse exampleClient (Path ''/'') (methodOnly Get)
               JUndefined (Some quietSink)))
            ([Socket] @ ReqError (SystemError ''ENOTFOUND'') #
               [Connect, Response (IncomingMessage [])]))
     = Rejected (SystemError ''ENOTFOUND'')"
proof -
  have q: "neverThrows (Some quietSink)" by (simp add: neverThrows_def quietSink_def)
  have acc: "accepted JUndefined" by (simp add: accepted_def)
  define S where "S = returnedState (request exampleParse exampleClient (Path ''/'')
      (methodOnly Get) JUndefined (Some quietSink))"
  have r: "request exampleParse exampleClient (Path ''/'') (methodOnly Get) JUndefined
             (Some quietSink) = Inr S"
    by (simp add: S_def returnedState_def
        example_request [OF exampleClient_baseUrl acc, of "methodOnly Get"])
  have p: "set [Socket] \<subseteq> {Socket}" by simp
  from failure_before_connect [OF r acc q p, of "SystemError ''ENOTFOUND''"
      "[Connect, Response (IncomingMessage [])]"]
  have "kinds (transportRun (Some quietSink) S
            ([Socket] @ ReqError (SystemError ''ENOTFOUND'') #
               [Connect, Response (IncomingMessage [])]))
     = [RequestStreamInitialised, RequestStreamEnded, SocketObtained, RequestError]"
    and "outcome (transportRun (Some quietSink) S
            ([Socket] @ ReqError (SystemError ''ENOTFOUND'') #
               [Connect, Response (IncomingMessage [])]))
     = Rejected (SystemError ''ENOTFOUND'')"
    by simp_all
  with q acc show ?thesis unfolding S_def by blast
qed

text \<open>
  C6. For a stream body the error listener is attached to the source before it is
  piped; an error of the source destroys the request with that error as cause, and the
  error then surfaces as a transport error does: through RequestFailed and as the
  failure of the Outcome. When the response has arrived before the source fails, the
  Outcome is already fulfilled and stays so.
\<close>

theorem stream_error_after_response_counterexample:
  "map_sum id outcome
     (lifecycle exampleParse exampleClient (Path ''/'') (methodOnly Post) (JReadable 0)
        (Some quietSink)
        [Socket, Connect, Response (IncomingMessage [1]), DataError (SystemError ''ENOENT'')])
     = Inr (Fulfilled (IncomingMessage [1]))"
proof -
  have acc: "accepted (JReadable 0)" by (simp add: accepted_def isConsumable_def)
  note r = example_request [OF exampleClient_baseUrl acc, of "methodOnly Post"]
  show ?thesis
    by (simp add: lifecycle_def r idle_def event_def quietSink_def handler_defs)
qed

text \<open>
  C6, amended. For a stream body the error listener is attached before the pipe. At the
  first error of the source, on a request not yet destroyed, the request is destroyed
  with that error as cause and the error is handled exactly as an error of the request:
  RequestFailed is published with it, and, when the listeners of the sink return, an
  Outcome that is still pending fails with it, while a settled Outcome stays as it is.
\<close>

theorem stream_error_destroys_request:
  assumes "request parse this p reqOpts (JReadable rid) tel = Inr st"
    and "s = run tel st pre" and "dataErrorL s" and "\<not> destroyed s"
  shows "(\<exists>xs. ops st = xs @ [DataOnceError, DataPipe]) \<and>
         ops (deliver tel (DataError e) s) = ops s @ [ReqDestroy (Some e), ReqDestroy None] \<and>
         deliver tel (DataError e) s
           = deliver tel (ReqError e)
               (s\<lparr>dataErrorL := False, ops := ops s @ [ReqDestroy (Some e)],
                  destroyed := True\<rparr>) \<and>
         published (deliver tel (DataError e) s)
           = published s @
               (case tel of
                  None \<Rightarrow> []
                | Some sink \<Rightarrow> [\<lparr>evType = RequestError, evData = None, evError = Some e\<rparr>]) \<and>
         (neverThrows tel \<longrightarrow>
            outcome (deliver tel (DataError e) s)
              = (if outcome s = Pending then Rejected e else outcome s))"
proof -
  have acc: "accepted (JReadable rid)" by (simp add: accepted_def isConsumable_def)
  from request_latchInv [OF assms(1) acc] have "latchInv s"
    unfolding assms(2) by (rule latchInv_run)
  with assms(4) have l: "errorL s" "rejectL s \<or> outcome s \<noteq> Pending"
    by (auto simp: latchInv_def)
  have a: "\<exists>xs. ops st = xs @ [DataOnceError, DataPipe]"
    by (rule request_stream_ops [OF assms(1)])
  have b: "ops (deliver tel (DataError e) s) = ops s @ [ReqDestroy (Some e), ReqDestroy None]"
    using assms(3,4) l(1) by (auto simp: handler_defs split: option.splits)
  have c: "deliver tel (DataError e) s
           = deliver tel (ReqError e)
               (s\<lparr>dataErrorL := False, ops := ops s @ [ReqDestroy (Some e)],
                  destroyed := True\<rparr>)"
    using assms(3,4) by (simp add: onDataError_def Let_def)
  have d: "published (deliver tel (DataError e) s)
           = published s @
               (case tel of
                  None \<Rightarrow> []
                | Some sink \<Rightarrow> [\<lparr>evType = RequestError, evData = None, evError = Some e\<rparr>])"
    using assms(3,4) l(1) by (auto simp: handler_defs split: option.splits)
  have f: "neverThrows tel \<longrightarrow>
            outcome (deliver tel (DataError e) s)
              = (if outcome s = Pending then Rejected e else outcome s)"
    using assms(3,4) l by (auto simp: neverThrows_def handler_defs split: option.splits)
  from a b c d f show ?thesis by blast
qed

theorem stream_error_destroys_request_witness:
  "neverThrows (Some quietSink) \<and>
   map_sum id outcome
     (lifecycle exampleParse exampleClient (Path ''/'') (methodOnly Post) (JReadable 0)
        (Some quietSink) [Socket, DataError (SystemError ''ENOENT'')])
     = Inr (Rejected (SystemError ''ENOENT'')) \<and>
   map_sum id kinds
     (lifecycle exampleParse exampleClient (Path ''/'') (methodOnly Post) (JReadable 0)
        (Some quietSink) [Socket, DataError (SystemError ''ENOENT'')])
     = Inr [RequestStreamInitialised, RequestStreamEnded, SocketObtained, RequestError] \<and>
   map_sum id ops
     (lifecycle exampleParse exampleClient (Path ''/'') (methodOnly Post) (JReadable 0)
        (Some quietSink) [Socket, DataError (SystemError ''ENOENT'')])
     = Inr [HttpRequest exampleUrl (methodOnly Post), SetMaxListeners 5, DataOnceError,
            DataPipe, ReqDestroy (Some (SystemError ''ENOENT'')), ReqDestroy None]"
proof -
  have q: "neverThrows (Some quietSink)" by (simp add: neverThrows_def quietSink_def)
  have acc: "accepted (JReadable 0)" by (simp add: accepted_def isConsumable_def)
  note r = example_request [OF exampleClient_baseUrl acc, of "methodOnly Post"]
  define s where "s = run (Some quietSink)
      (returnedState (request exampleParse exampleClient (Path ''/'') (methodOnly Post)
         (JReadable 0) (Some quietSink))) [Socket]"
  have s: "dataErrorL s" "\<not> destroyed s" "outcome s = Pending"
    "ops s = [HttpRequest exampleUrl (methodOnly Post), SetMaxListeners 5, DataOnceError,
              DataPipe]"
    "kinds s = [RequestStreamInitialised, RequestStreamEnded, SocketObtained]"
    by (simp_all add: s_def r returnedState_def idle_def kinds_def event_def quietSink_def
        assignContentLength_def handler_defs)
  have rs: "s = run (Some quietSink)
      (idle\<lparr>socketL := True, responseL := True, errorL := True,
                dataErrorL := isReadable (JReadable 0), resolveL := True, rejectL := True,
                ops := [HttpRequest exampleUrl (assignContentLength (methodOnly Post) (JReadable 0)),
                        SetMaxListeners 5] @
                       (if isReadable (JReadable 0) then [DataOnceError, DataPipe]
                        else [ReqEnd (JReadable 0)]),
                published := [\<lparr>evType = RequestStreamInitialised,
                                evData = Some (exampleUrl,
                                  assignContentLength (methodOnly Post) (JReadable 0)),
                                evError = None\<rparr>,
                              event RequestStreamEnded]\<rparr>) [Socket]"
    by (simp only: s_def r returnedState_def sum.case)
  note t = stream_error_destroys_request [OF r rs s(1,2), of "SystemError ''ENOENT''"]
  note t2 = t [THEN conjunct2, THEN conjunct1]
  note t4 = t [THEN conjunct2, THEN conjunct2, THEN conjunct2, THEN conjunct1]
  note t5 = t [THEN conjunct2, THEN conjunct2, THEN conjunct2, THEN conjunct2, THEN mp, OF q]
  from t5 have o: "outcome (deliver (Some quietSink) (DataError (SystemError ''ENOENT'')) s)
          = Rejected (SystemError ''ENOENT'')"
    by (simp only: s(3) refl if_True simp_thms)
  from t2 have p: "ops (deliver (Some quietSink) (DataError (SystemError ''ENOENT'')) s)
          = [HttpRequest exampleUrl (methodOnly Post), SetMaxListeners 5, DataOnceError,
             DataPipe, ReqDestroy (Some (SystemError ''ENOENT'')), ReqDestroy None]"
    by (simp only: s(4) append.simps)
  from t4 have "published (deliver (Some quietSink) (DataError (SystemError ''ENOENT'')) s)
          = published s @
              [\<lparr>evType = RequestError, evData = None, evError = Some (SystemError ''ENOENT'')\<rparr>]"
    by (simp only: option.case)
  then have "kinds (deliver (Some quietSink) (DataError (SystemError ''ENOENT'')) s)
          = kinds s @ [RequestError]"
    by (simp add: kinds_def)
  then have k: "kinds (deliver (Some quietSink) (DataError (SystemError ''ENOENT'')) s)
          = [RequestStreamInitialised, RequestStreamEnded, SocketObtained, RequestError]"
    by (simp only: s(5) append.simps)
  note o p k
  moreover have "lifecycle exampleParse exampleClient (Path ''/'') (methodOnly Post)
        (JReadable 0) (Some quietSink) [Socket, DataError (SystemError ''ENOENT'')]
      = Inr (deliver (Some quietSink) (DataError (SystemError ''ENOENT'')) s)"
    by (simp add: lifecycle_def r s_def returnedState_def)
  ultimately show ?thesis using q by simp
qed

text \<open>
  C7. A failure thrown by the sink while an event is published never affects the
  Outcome: it is the same with the sink absent, well-behaved or throwing. The source
  calls \<open>emit\<close> with no handler around it, so what a listener throws leaves the
  listener of the request before \<open>resolver.emit\<close> is reached: with a listener that
  throws on ResponseReceived the response no longer fulfils the Outcome.
\<close>

theorem throwing_sink_changes_outcome_counterexample:
  "map_sum id outcome
     (lifecycle exampleParse exampleClient (Path ''/'') (methodOnly Get) JUndefined
        None [Response (IncomingMessage [72, 105])])
     = Inr (Fulfilled (IncomingMessage [72, 105])) \<and>
   map_sum id outcome
     (lifecycle exampleParse exampleClient (Path ''/'') (methodOnly Get) JUndefined
        (Some (throwOn ResponseStreamReceived)) [Response (IncomingMessage [72, 105])])
     = Inr Pending"
  by (simp add: lifecycle_def request_def isConsumable_def assignContentLength_def
      buildUrl_def exampleParse_def exampleClient_def throwOn_def idle_def
      event_def handler_defs)

text \<open>
  C7, amended. A sink whose listeners return does not affect the request: the call
  returns as it does without a sink, and after any signals the state, the Outcome
  included, is the one reached without a sink, the published events apart.
\<close>

theorem returning_sink_does_not_affect_outcome:
  assumes "neverThrows (Some sink)"
    and "request parse this p reqOpts data (Some sink) = Inr st"
  shows "request parse this p reqOpts data None = Inr (st\<lparr>published := []\<rparr>) \<and>
         run None (st\<lparr>published := []\<rparr>) sigs
           = (run (Some sink) st sigs)\<lparr>published := []\<rparr> \<and>
         outcome (run None (st\<lparr>published := []\<rparr>) sigs) = outcome (run (Some sink) st sigs)"
proof -
  from assms(1) have q: "\<forall>ev. sink ev = None" by (simp add: neverThrows_def)
  have a: "request parse this p reqOpts data None = Inr (st\<lparr>published := []\<rparr>)"
    by (rule request_without_sink [OF q assms(2)])
  have b: "run None (st\<lparr>published := []\<rparr>) sigs
           = (run (Some sink) st sigs)\<lparr>published := []\<rparr>"
    by (rule run_without_sink [OF q])
  have "outcome (run None (st\<lparr>published := []\<rparr>) sigs)
          = outcome ((run (Some sink) st sigs)\<lparr>published := []\<rparr>)"
    by (simp only: b)
  then have c: "outcome (run None (st\<lparr>published := []\<rparr>) sigs)
                  = outcome (run (Some sink) st sigs)"
    by simp
  from a b c show ?thesis by blast
qed

theorem returning_sink_does_not_affect_outcome_witness:
  "neverThrows (Some quietSink) \<and>
   map_sum id outcome
     (lifecycle exampleParse exampleClient (Path ''/'') (methodOnly Get) JUndefined
        None [Socket, Connect, Response (IncomingMessage [72, 105])])
     = map_sum id outcome
         (lifecycle exampleParse exampleClient (Path ''/'') (methodOnly Get) JUndefined
            (Some quietSink) [Socket, Connect, Response (IncomingMessage [72, 105])])"
proof -
  have q: "neverThrows (Some quietSink)" by (simp add: neverThrows_def quietSink_def)
  have acc: "accepted JUndefined" by (simp add: accepted_def)
  define S where "S = returnedState (request exampleParse exampleClient (Path ''/'')
      (methodOnly Get) JUndefined (Some quietSink))"
  have r: "request exampleParse exampleClient (Path ''/'') (methodOnly Get) JUndefined
             (Some quietSink) = Inr S"
    by (simp add: S_def returnedState_def
        example_request [OF exampleClient_baseUrl acc, of "methodOnly Get"])
  note t = returning_sink_does_not_affect_outcome [OF q r,
      of "[Socket, Connect, Response (IncomingMessage [72, 105])]"]
  from t have n: "request exampleParse exampleClient (Path ''/'') (methodOnly Get) JUndefined None
      = Inr (S\<lparr>published := []\<rparr>)"
    by blast
  from t have o: "outcome (run None (S\<lparr>published := []\<rparr>)
                     [Socket, Connect, Response (IncomingMessage [72, 105])])
                  = outcome (run (Some quietSink) S
                     [Socket, Connect, Response (IncomingMessage [72, 105])])"
    by blast
  from q o show ?thesis
    by (simp only: lifecycle_def r n sum.case map_sum.simps simp_thms)
qed

text \<open>
  C8. For a stream body and for an absent body no content length is derived, and the
  options reach the transport as the caller gave them, a \<open>content-length\<close> of the
  caller included.
\<close>

theorem no_content_length_without_buffer_or_text:
  assumes "request parse this p reqOpts data tel = Inr st"
    and "data = JUndefined \<or> isReadable data"
  shows "getContentLength data = None \<and> sentOptions (ops st) = [reqOpts]"
proof -
  from assms(2) have n: "getContentLength data = None" by (cases data) auto
  from assms(2) have "accepted data" by (cases data) (auto simp: accepted_def isConsumable_def)
  from sentOptions_request [OF assms(1) this] n show ?thesis
    by (simp add: assignContentLength_def)
qed

theorem no_content_length_without_buffer_or_text_witness:
  "map_sum id (\<lambda>st. sentOptions (ops st))
     (request exampleParse exampleClient (Path ''/'')
        \<lparr>httpMethod = Defined Post, headers = Defined [''content-length'' \<mapsto> HNumber 5], others = Map.empty\<rparr>
        (JReadable 0) (Some quietSink))
     = Inr [\<lparr>httpMethod = Defined Post, headers = Defined [''content-length'' \<mapsto> HNumber 5],
             others = Map.empty\<rparr>]"
proof -
  have acc: "accepted (JReadable 0)" by (simp add: accepted_def isConsumable_def)
  note r = example_request [OF exampleClient_baseUrl acc,
      of "\<lparr>httpMethod = Defined Post, headers = Defined [''content-length'' \<mapsto> HNumber 5], others = Map.empty\<rparr>"]
  from no_content_length_without_buffer_or_text [OF r] show ?thesis
    by (simp add: r)
qed

text \<open>
  C9. Each verb wrapper fixes its method and forwards to \<open>request\<close>, and the options
  that reach the transport are merged with the precedence base defaults, then per-call
  options, then the derived \<open>content-length\<close>. A per-call key overrides the base also
  when it is given as \<open>undefined\<close>.
\<close>

theorem wrappers_fix_method_and_merge:
  "get parse this p ro tel = request parse this p (combineOpts this Get ro) JUndefined tel \<and>
   post parse this p ro data tel = request parse this p (combineOpts this Post ro) data tel \<and>
   delete parse this p ro tel
     = request parse this p (combineOpts this Delete ro) JUndefined tel \<and>
   (get parse this p ro tel = Inr st1 \<longrightarrow>
      sentOptions (ops st1) = [mergedOptions (baseReqOpts this) ro Get None]) \<and>
   (post parse this p ro data tel = Inr st2 \<and> accepted data \<longrightarrow>
      sentOptions (ops st2)
        = [mergedOptions (baseReqOpts this) ro Post (getContentLength data)]) \<and>
   (delete parse this p ro tel = Inr st3 \<longrightarrow>
      sentOptions (ops st3) = [mergedOptions (baseReqOpts this) ro Delete None])"
proof -
  have u: "accepted JUndefined" by (simp add: accepted_def)
  have n: "getContentLength JUndefined = None" by simp
  show ?thesis
    using sentOptions_request [of parse this p "combineOpts this Get ro" JUndefined tel st1, OF _ u]
      sentOptions_request [of parse this p "combineOpts this Post ro" data tel st2]
      sentOptions_request [of parse this p "combineOpts this Delete ro" JUndefined tel st3, OF _ u]
      combineOpts_merged [of this Get ro JUndefined]
      combineOpts_merged [of this Post ro data]
      combineOpts_merged [of this Delete ro JUndefined]
    by (simp add: get_def post_def delete_def)
qed

theorem wrappers_fix_method_and_merge_witness:
  "map_sum id
     (\<lambda>st. map (\<lambda>opts. (httpMethod opts, headers opts,
                         others opts ''timeout'', others opts ''host''))
              (sentOptions (ops st)))
     (post exampleParse
        \<lparr>baseUrl = ''http://localhost:3000'',
         baseReqOpts = Some \<lparr>httpMethod = Defined Get,
                              headers = Defined [''accept'' \<mapsto> HString ''text/plain''],
                              others = [''timeout'' \<mapsto> JNumber 1000,
                                        ''host'' \<mapsto> JString [97]]\<rparr>\<rparr>
        (Path ''/'')
        (Some \<lparr>httpMethod = Defined Delete, headers = Undefined,
               others = [''timeout'' \<mapsto> JUndefined]\<rparr>)
        (JBuffer [1, 2, 3]) (Some quietSink))
     = Inr [(Defined Post, Defined [''content-length'' \<mapsto> HNumber 3],
             Some JUndefined, Some (JString [97]))]"
proof -
  let ?cl = "\<lparr>baseUrl = ''http://localhost:3000'',
         baseReqOpts = Some \<lparr>httpMethod = Defined Get,
                              headers = Defined [''accept'' \<mapsto> HString ''text/plain''],
                              others = [''timeout'' \<mapsto> JNumber 1000,
                                        ''host'' \<mapsto> JString [97]]\<rparr>\<rparr>"
  let ?ro = "Some \<lparr>httpMethod = Defined Delete, headers = Undefined,
               others = [''timeout'' \<mapsto> JUndefined]\<rparr>"
  have b: "baseUrl ?cl = ''http://localhost:3000''" by simp
  have acc: "accepted (JBuffer [1, 2, 3])" by (simp add: accepted_def isConsumable_def)
  have r: "post exampleParse ?cl (Path ''/'') ?ro (JBuffer [1, 2, 3]) (Some quietSink)
             = request exampleParse ?cl (Path ''/'') (combineOpts ?cl Post ?ro)
                 (JBuffer [1, 2, 3]) (Some quietSink)"
    by (simp add: post_def)
  note e = example_request [OF b acc, of "combineOpts ?cl Post ?ro"]
  from r e obtain st
    where st: "post exampleParse ?cl (Path ''/'') ?ro (JBuffer [1, 2, 3]) (Some quietSink) = Inr st"
    by simp
  from wrappers_fix_method_and_merge
         [where parse = exampleParse and this = ?cl and p = "Path ''/''" and ro = ?ro
            and tel = "Some quietSink" and data = "JBuffer [1, 2, 3]" and ?st2.0 = st]
       st acc
  have "sentOptions (ops st)
          = [mergedOptions (baseReqOpts ?cl) ?ro Post (getContentLength (JBuffer [1, 2, 3]))]"
    by blast
  with st show ?thesis
    by (simp add: mergedOptions_def optionsOf_def Let_def)
qed

text \<open>
  C10. Constructing the client on a base URL whose protocol is not \<open>http:\<close> throws
  and yields no client; on a base URL whose protocol is \<open>http:\<close> it succeeds and the
  client holds the base URL and the base request options as they were given.
\<close>

theorem constructor_http_only:
  assumes "parse url None = Some u"
  shows "(protocol u \<noteq> ''http:'' \<longrightarrow>
            newHttpClient parse url opts
              = Inl (Error (''only http protocol is supported, got '' @ protocol u))) \<and>
         (protocol u = ''http:'' \<longrightarrow>
            newHttpClient parse url opts = Inr \<lparr>baseUrl = url, baseReqOpts = opts\<rparr>)"
  using assms by (simp add: newHttpClient_def)

theorem constructor_http_only_witness:
  "newHttpClient exampleParse ''https://example.org/'' None
     = Inl (Error ''only http protocol is supported, got https:'') \<and>
   newHttpClient exampleParse ''http://localhost:3000/'' (Some (methodOnly Get))
     = Inr \<lparr>baseUrl = ''http://localhost:3000/'', baseReqOpts = Some (methodOnly Get)\<rparr>"
proof -
  have a: "exampleParse ''https://example.org/'' None
             = Some \<lparr>protocol = ''https:'', href = ''https://example.org/''\<rparr>"
    by (simp add: exampleParse_def)
  have b: "exampleParse ''http://localhost:3000/'' None
             = Some \<lparr>protocol = ''http:'', href = ''http://localhost:3000/''\<rparr>"
    by (simp add: exampleParse_def)
  from constructor_http_only [of exampleParse "''https://example.org/''" _ None, OF a]
       constructor_http_only [of exampleParse "''http://localhost:3000/''" _
         "Some (methodOnly Get)", OF b]
  show ?thesis by simp
qed

end
